theory Spec2Isabelle
  imports Main "HOL-Library.Word"
begin

unbundle bit_operations_syntax

section \<open>Python values, exceptions and byte strings\<close>

text \<open>
  A Python \<open>str\<close> is a sequence of Unicode code points; \<open>str\<close> turns an ASCII/Latin-1
  literal of the theory into one. A \<open>bytes\<close> object is a list of 8-bit words.
\<close>

type_synonym pystr = "nat list"
type_synonym byte = "8 word"

definition str :: "string \<Rightarrow> pystr" where
  "str s = map of_char s"

datatype pyval =
    PNone
  | PBool bool
  | PInt int
  | PStr pystr
  | PList "pyval list"

text \<open>A \<open>Container\<close> (an ordered dictionary keyed by field name).\<close>

type_synonym container = "(pystr \<times> pyval) list"

text \<open>
  The exceptions of the \<open>construct\<close> library and of Python itself that the code can meet,
  and the two exception classes of \<open>blheli_protocol.py\<close>, which carry the text of
  what they wrap.
\<close>

datatype exn =
    StreamError | FormatFieldError | MappingError | ConstError | RangeError
  | PaddingError | StringError
  | SizeofError | KeyError | AttributeError | TypeError | ValueError | AssertionError
  | UnboundLocalError | Unmodelled

datatype decoding_cause =
    NullLengthFrame
  | UnparsableFrame exn
  | InvalidStartByte
  | InvalidCrc
  | UnparsablePayload exn

datatype error =
    Raised exn
  | BLHeliEncodingError exn
  | BLHeliDecodingError decoding_cause
  | DeviceTypeError

text \<open>Python's \<open>bool(x)\<close> and the reading of a \<open>bool\<close> or \<open>int\<close> as an integer.\<close>

fun truthy :: "pyval \<Rightarrow> bool" where
  "truthy PNone = False"
| "truthy (PBool b) = b"
| "truthy (PInt i) = (i \<noteq> 0)"
| "truthy (PStr s) = (s \<noteq> [])"
| "truthy (PList xs) = (xs \<noteq> [])"

fun as_int :: "pyval \<Rightarrow> int option" where
  "as_int (PInt i) = Some i"
| "as_int (PBool b) = Some (if b then 1 else 0)"
| "as_int _ = None"

section \<open>CRC16/XMODEM\<close>

text \<open>
  \<open>crcmod.mkCrcFun(0x11021, rev=False, initCrc=0x0000, xorOut=0x0000)\<close>: the
  most-significant-bit-first CRC with polynomial 0x1021 over a 16-bit register.
\<close>

definition crc_shift :: "16 word \<Rightarrow> 16 word" where
  "crc_shift c = (if bit c 15 then push_bit 1 c XOR 0x1021 else push_bit 1 c)"

definition crc_byte :: "16 word \<Rightarrow> byte \<Rightarrow> 16 word" where
  "crc_byte c b = (crc_shift ^^ 8) (c XOR push_bit 8 (ucast b))"

definition CRC16_XMODEM :: "byte list \<Rightarrow> 16 word" where
  "CRC16_XMODEM bs = foldl crc_byte 0 bs"

section \<open>UTF-8\<close>

text \<open>Python's strict \<open>utf8\<close> codec, on byte values read as naturals.\<close>

definition is_cont :: "nat \<Rightarrow> bool" where
  "is_cont b = (0x80 \<le> b \<and> b \<le> 0xBF)"

fun utf8_next :: "nat list \<Rightarrow> (nat \<times> nat list) option" where
  "utf8_next [] = None"
| "utf8_next (b0 # bs) =
    (if b0 < 0x80 then Some (b0, bs)
     else if 0xC2 \<le> b0 \<and> b0 \<le> 0xDF then
       (case bs of
          b1 # r \<Rightarrow> if is_cont b1 then Some ((b0 - 0xC0) * 64 + (b1 - 0x80), r) else None
        | _ \<Rightarrow> None)
     else if 0xE0 \<le> b0 \<and> b0 \<le> 0xEF then
       (case bs of
          b1 # b2 # r \<Rightarrow>
            if (if b0 = 0xE0 then 0xA0 else 0x80) \<le> b1
               \<and> b1 \<le> (if b0 = 0xED then 0x9F else 0xBF) \<and> is_cont b2
            then Some ((b0 - 0xE0) * 4096 + (b1 - 0x80) * 64 + (b2 - 0x80), r)
            else None
        | _ \<Rightarrow> None)
     else if 0xF0 \<le> b0 \<and> b0 \<le> 0xF4 then
       (case bs of
          b1 # b2 # b3 # r \<Rightarrow>
            if (if b0 = 0xF0 then 0x90 else 0x80) \<le> b1
               \<and> b1 \<le> (if b0 = 0xF4 then 0x8F else 0xBF) \<and> is_cont b2 \<and> is_cont b3
            then Some ((b0 - 0xF0) * 262144 + (b1 - 0x80) * 4096
                       + (b2 - 0x80) * 64 + (b3 - 0x80), r)
            else None
        | _ \<Rightarrow> None)
     else None)"

lemma utf8_next_shorter: "utf8_next bs = Some (c, r) \<Longrightarrow> length r < length bs"
  by (cases bs) (auto split: if_splits list.splits)

function utf8_decode :: "nat list \<Rightarrow> pystr option" where
  "utf8_decode bs =
    (if bs = [] then Some []
     else case utf8_next bs of
            None \<Rightarrow> None
          | Some (c, r) \<Rightarrow> map_option ((#) c) (utf8_decode r))"
  by pat_completeness auto
termination
  by (relation "measure length") (auto dest: utf8_next_shorter)

declare utf8_decode.simps [simp del]

definition utf8_char :: "nat \<Rightarrow> nat list option" where
  "utf8_char c =
    (if c < 0x80 then Some [c]
     else if c < 0x800 then Some [0xC0 + c div 64, 0x80 + c mod 64]
     else if c < 0x10000 then
       (if 0xD800 \<le> c \<and> c \<le> 0xDFFF then None
        else Some [0xE0 + c div 4096, 0x80 + (c div 64) mod 64, 0x80 + c mod 64])
     else if c < 0x110000 then
       Some [0xF0 + c div 262144, 0x80 + (c div 4096) mod 64,
             0x80 + (c div 64) mod 64, 0x80 + c mod 64]
     else None)"

fun utf8_encode :: "pystr \<Rightarrow> nat list option" where
  "utf8_encode [] = Some []"
| "utf8_encode (c # cs) =
    (case utf8_char c of
       None \<Rightarrow> None
     | Some bs \<Rightarrow> map_option ((@) bs) (utf8_encode cs))"

section \<open>The constructs of the \<open>construct\<close> library used by the code\<close>

datatype con =
    Byte
  | Int8ul
  | Int16ub
  | Flag
  | Enum con "(pystr \<times> int) list"
  | Const int con
  | Default con int
  | PrefixedArray con con
  | Padding nat byte
  | PaddedString nat

text \<open>A \<open>Struct\<close>: its subconstructs in order, each with its name if it has one.\<close>

type_synonym struct = "(pystr option \<times> con) list"

definition stream_read :: "nat \<Rightarrow> byte list \<Rightarrow> exn + (byte list \<times> byte list)" where
  "stream_read n bs =
    (if length bs < n then Inl StreamError else Inr (take n bs, drop n bs))"

text \<open>\<open>Enum._decode\<close>: the name mapped to the value (the last one, as the dictionary
  comprehension keeps it), or the bare integer when there is none.\<close>

definition enum_decode :: "(pystr \<times> int) list \<Rightarrow> int \<Rightarrow> pyval" where
  "enum_decode m v =
    (case map_of (map (\<lambda>(k, x). (x, k)) (rev m)) v of
       Some k \<Rightarrow> PStr k
     | None \<Rightarrow> PInt v)"

definition rstrip_null :: "byte list \<Rightarrow> byte list" where
  "rstrip_null bs = rev (dropWhile (\<lambda>b. b = 0) (rev bs))"

text \<open>\<open>Array._parse\<close>: the subconstruct, \<open>n\<close> times.\<close>

fun parse_array ::
  "nat \<Rightarrow> (byte list \<Rightarrow> exn + (pyval \<times> byte list)) \<Rightarrow> byte list
   \<Rightarrow> exn + (pyval list \<times> byte list)" where
  "parse_array 0 p bs = Inr ([], bs)"
| "parse_array (Suc n) p bs =
    (case p bs of
       Inl e \<Rightarrow> Inl e
     | Inr (v, rest) \<Rightarrow>
        (case parse_array n p rest of
           Inl e \<Rightarrow> Inl e
         | Inr (vs, rest') \<Rightarrow> Inr (v # vs, rest')))"

text \<open>
  \<open>_parse\<close> of each construct. \<open>PaddedString\<close> strips the trailing zero bytes of
  its field and decodes the rest as UTF-8; bytes that are no UTF-8 are reported by the
  library as its \<open>StringError\<close>, and so is a text that cannot be encoded.
\<close>

primrec parse_con :: "con \<Rightarrow> byte list \<Rightarrow> exn + (pyval \<times> byte list)" where
  "parse_con Byte = (\<lambda>bs.
    case stream_read 1 bs of
      Inl e \<Rightarrow> Inl e
    | Inr (d, rest) \<Rightarrow> Inr (PInt (uint (hd d)), rest))"
| "parse_con Int8ul = (\<lambda>bs.
    case stream_read 1 bs of
      Inl e \<Rightarrow> Inl e
    | Inr (d, rest) \<Rightarrow> Inr (PInt (uint (hd d)), rest))"
| "parse_con Int16ub = (\<lambda>bs.
    case stream_read 2 bs of
      Inl e \<Rightarrow> Inl e
    | Inr (d, rest) \<Rightarrow> Inr (PInt (uint (d ! 0) * 256 + uint (d ! 1)), rest))"
| "parse_con Flag = (\<lambda>bs.
    case stream_read 1 bs of
      Inl e \<Rightarrow> Inl e
    | Inr (d, rest) \<Rightarrow> Inr (PBool (d \<noteq> [0]), rest))"
| "parse_con (Enum subcon mapping) = (\<lambda>bs.
    case parse_con subcon bs of
      Inl e \<Rightarrow> Inl e
    | Inr (obj, rest) \<Rightarrow>
       (case as_int obj of
          None \<Rightarrow> Inl ValueError
        | Some v \<Rightarrow> Inr (enum_decode mapping v, rest)))"
| "parse_con (Const val subcon) = (\<lambda>bs.
    case parse_con subcon bs of
      Inl e \<Rightarrow> Inl e
    | Inr (obj, rest) \<Rightarrow>
       if as_int obj \<noteq> Some val then Inl ConstError else Inr (obj, rest))"
| "parse_con (Default subcon val) = (\<lambda>bs. parse_con subcon bs)"
| "parse_con (PrefixedArray countfield subcon) = (\<lambda>bs.
    case parse_con countfield bs of
      Inl e \<Rightarrow> Inl e
    | Inr (cnt, rest) \<Rightarrow>
       (case as_int cnt of
          None \<Rightarrow> Inl TypeError
        | Some n \<Rightarrow>
           if n < 0 then Inl RangeError
           else (case parse_array (nat n) (parse_con subcon) rest of
                   Inl e \<Rightarrow> Inl e
                 | Inr (items, rest') \<Rightarrow> Inr (PList items, rest'))))"
| "parse_con (Padding n pattern) = (\<lambda>bs.
    case stream_read n bs of
      Inl e \<Rightarrow> Inl e
    | Inr (d, rest) \<Rightarrow> Inr (PNone, rest))"
| "parse_con (PaddedString n) = (\<lambda>bs.
    case stream_read n bs of
      Inl e \<Rightarrow> Inl e
    | Inr (d, rest) \<Rightarrow>
       (case utf8_decode (map unat (rstrip_null d)) of
          None \<Rightarrow> Inl StringError
        | Some s \<Rightarrow> Inr (PStr s, rest)))"

text \<open>\<open>struct.pack\<close> of one unsigned integer of \<open>n\<close> bytes, big-endian.\<close>

definition pack_B :: "pyval \<Rightarrow> exn + byte list" where
  "pack_B obj =
    (case as_int obj of
       None \<Rightarrow> Inl FormatFieldError
     | Some i \<Rightarrow>
        if 0 \<le> i \<and> i < 256 then Inr [word_of_int i] else Inl FormatFieldError)"

definition pack_H :: "pyval \<Rightarrow> exn + byte list" where
  "pack_H obj =
    (case as_int obj of
       None \<Rightarrow> Inl FormatFieldError
     | Some i \<Rightarrow>
        if 0 \<le> i \<and> i < 65536 then Inr [word_of_int (i div 256), word_of_int (i mod 256)]
        else Inl FormatFieldError)"

text \<open>\<open>Array._build\<close>: the subconstruct on each element.\<close>

fun build_array :: "(pyval \<Rightarrow> exn + byte list) \<Rightarrow> pyval list \<Rightarrow> exn + byte list" where
  "build_array b [] = Inr []"
| "build_array b (x # xs) =
    (case b x of
       Inl e \<Rightarrow> Inl e
     | Inr d \<Rightarrow>
        (case build_array b xs of
           Inl e \<Rightarrow> Inl e
         | Inr ds \<Rightarrow> Inr (d @ ds)))"

primrec build_con :: "con \<Rightarrow> pyval \<Rightarrow> exn + byte list" where
  "build_con Byte = (\<lambda>obj. pack_B obj)"
| "build_con Int8ul = (\<lambda>obj. pack_B obj)"
| "build_con Int16ub = (\<lambda>obj. pack_H obj)"
| "build_con Flag = (\<lambda>obj. Inr [if truthy obj then 1 else 0])"
| "build_con (Enum subcon mapping) = (\<lambda>obj.
    case obj of
      PInt i \<Rightarrow> build_con subcon obj
    | PBool b \<Rightarrow> build_con subcon obj
    | PStr s \<Rightarrow>
       (case map_of mapping s of
          None \<Rightarrow> Inl MappingError
        | Some v \<Rightarrow> build_con subcon (PInt v))
    | PNone \<Rightarrow> Inl MappingError
    | PList xs \<Rightarrow> Inl TypeError)"
| "build_con (Const val subcon) = (\<lambda>obj.
    if obj = PNone \<or> as_int obj = Some val then build_con subcon (PInt val)
    else Inl ConstError)"
| "build_con (Default subcon val) = (\<lambda>obj.
    build_con subcon (if obj = PNone then PInt val else obj))"
| "build_con (PrefixedArray countfield subcon) = (\<lambda>obj.
    case obj of
      PList xs \<Rightarrow>
       (case build_con countfield (PInt (int (length xs))) of
          Inl e \<Rightarrow> Inl e
        | Inr c \<Rightarrow>
           (case build_array (build_con subcon) xs of
              Inl e \<Rightarrow> Inl e
            | Inr d \<Rightarrow> Inr (c @ d)))
    | PStr s \<Rightarrow>
       (case build_con countfield (PInt (int (length s))) of
          Inl e \<Rightarrow> Inl e
        | Inr c \<Rightarrow>
           (case build_array (build_con subcon) (map (\<lambda>ch. PStr [ch]) s) of
              Inl e \<Rightarrow> Inl e
            | Inr d \<Rightarrow> Inr (c @ d)))
    | _ \<Rightarrow> Inl TypeError)"
| "build_con (Padding n pattern) = (\<lambda>obj. Inr (replicate n pattern))"
| "build_con (PaddedString n) = (\<lambda>obj.
    case obj of
      PStr s \<Rightarrow>
       (case utf8_encode s of
          None \<Rightarrow> Inl StringError
        | Some d \<Rightarrow>
           if n < length d then Inl PaddingError
           else Inr (map of_nat d @ replicate (n - length d) 0))
    | _ \<Rightarrow> Inl StringError)"

text \<open>Constructs that build from a missing value (\<open>flagbuildnone\<close>).\<close>

primrec flagbuildnone :: "con \<Rightarrow> bool" where
  "flagbuildnone Byte = False"
| "flagbuildnone Int8ul = False"
| "flagbuildnone Int16ub = False"
| "flagbuildnone Flag = False"
| "flagbuildnone (Enum subcon mapping) = flagbuildnone subcon"
| "flagbuildnone (Const val subcon) = True"
| "flagbuildnone (Default subcon val) = True"
| "flagbuildnone (PrefixedArray countfield subcon) = False"
| "flagbuildnone (Padding n pattern) = True"
| "flagbuildnone (PaddedString n) = False"

text \<open>Assignment \<open>obj[name] = value\<close>: in place when the key exists, appended otherwise.\<close>

fun setitem :: "container \<Rightarrow> pystr \<Rightarrow> pyval \<Rightarrow> container" where
  "setitem [] k v = [(k, v)]"
| "setitem ((k', v') # c) k v = (if k' = k then (k, v) # c else (k', v') # setitem c k v)"

definition getitem :: "container \<Rightarrow> pystr \<Rightarrow> exn + pyval" where
  "getitem c k = (case map_of c k of None \<Rightarrow> Inl KeyError | Some v \<Rightarrow> Inr v)"

text \<open>Attribute access \<open>obj.name\<close> on a \<open>Container\<close>.\<close>

definition getattr :: "container \<Rightarrow> pystr \<Rightarrow> exn + pyval" where
  "getattr c k = (case map_of c k of None \<Rightarrow> Inl AttributeError | Some v \<Rightarrow> Inr v)"

text \<open>\<open>Struct._parse\<close>, threading the stream and the container being filled.\<close>

fun parse_fields :: "struct \<Rightarrow> container \<Rightarrow> byte list \<Rightarrow> exn + (container \<times> byte list)" where
  "parse_fields [] obj bs = Inr (obj, bs)"
| "parse_fields ((name, sc) # scs) obj bs =
    (case parse_con sc bs of
       Inl e \<Rightarrow> Inl e
     | Inr (subobj, rest) \<Rightarrow>
        parse_fields scs (case name of None \<Rightarrow> obj | Some n \<Rightarrow> setitem obj n subobj) rest)"

text \<open>\<open>Construct.parse\<close> of a \<open>Struct\<close>: bytes left over in the stream are not an error.\<close>

definition parse_struct :: "struct \<Rightarrow> byte list \<Rightarrow> exn + container" where
  "parse_struct scs bs =
    (case parse_fields scs [] bs of Inl e \<Rightarrow> Inl e | Inr (obj, rest) \<Rightarrow> Inr obj)"

text \<open>\<open>Struct._build\<close>.\<close>

fun build_struct :: "struct \<Rightarrow> container \<Rightarrow> exn + byte list" where
  "build_struct [] obj = Inr []"
| "build_struct ((name, sc) # scs) obj =
    (case (case name of
             None \<Rightarrow> if flagbuildnone sc then Inr PNone else Inl KeyError
           | Some n \<Rightarrow>
              (case map_of obj n of
                 None \<Rightarrow> if flagbuildnone sc then Inr PNone else Inl KeyError
               | Some v \<Rightarrow> Inr v)) of
       Inl e \<Rightarrow> Inl e
     | Inr subobj \<Rightarrow>
        (case build_con sc subobj of
           Inl e \<Rightarrow> Inl e
         | Inr d \<Rightarrow>
            (case build_struct scs obj of
               Inl e \<Rightarrow> Inl e
             | Inr ds \<Rightarrow> Inr (d @ ds))))"

text \<open>
  The constructs that read a fixed number of bytes and accept every value of them: on
  these, parsing can only fail for lack of bytes.
\<close>

fun reads_any :: "con \<Rightarrow> bool" where
  "reads_any Byte = True"
| "reads_any Flag = True"
| "reads_any (Enum sc m) = (sc = Byte \<or> sc = Int16ub)"
| "reads_any (Padding n pattern) = True"
| "reads_any sc = False"

text \<open>\<open>sizeof\<close>: a construct of variable size raises \<open>SizeofError\<close>.\<close>

primrec sizeof_con :: "con \<Rightarrow> exn + nat" where
  "sizeof_con Byte = Inr 1"
| "sizeof_con Int8ul = Inr 1"
| "sizeof_con Int16ub = Inr 2"
| "sizeof_con Flag = Inr 1"
| "sizeof_con (Enum subcon mapping) = sizeof_con subcon"
| "sizeof_con (Const val subcon) = sizeof_con subcon"
| "sizeof_con (Default subcon val) = sizeof_con subcon"
| "sizeof_con (PrefixedArray countfield subcon) = Inl SizeofError"
| "sizeof_con (Padding n pattern) = Inr n"
| "sizeof_con (PaddedString n) = Inr n"

fun sizeof :: "struct \<Rightarrow> exn + nat" where
  "sizeof [] = Inr 0"
| "sizeof ((name, sc) # scs) =
    (case sizeof_con sc of
       Inl e \<Rightarrow> Inl e
     | Inr n \<Rightarrow> (case sizeof scs of Inl e \<Rightarrow> Inl e | Inr m \<Rightarrow> Inr (n + m)))"

section \<open>The frame codec (\<open>blheli_protocol.py\<close>)\<close>

definition REQUEST_START_BYTE :: int where
  "REQUEST_START_BYTE = 0x2f"

definition RESPONSE_START_BYTE :: int where
  "RESPONSE_START_BYTE = 0x2e"

definition COMMANDS :: "(pystr \<times> int) list" where
  "COMMANDS =
    [(str ''interface_test_alive'', 0x30),
     (str ''protocol_get_version'', 0x31),
     (str ''interface_get_name'', 0x32),
     (str ''interface_get_version'', 0x33),
     (str ''interface_exit'', 0x34),
     (str ''device_reset'', 0x35),
     (str ''device_init_flash'', 0x37),
     (str ''device_erase_all'', 0x38),
     (str ''device_page_erase'', 0x39),
     (str ''device_read'', 0x3a),
     (str ''device_write'', 0x3b),
     (str ''device_c2ck_low'', 0x3c),
     (str ''device_read_eeprom'', 0x3d),
     (str ''device_write_eeprom'', 0x3e),
     (str ''interface_set_mode'', 0x3f)]"

definition COMMAND_ENUM :: con where
  "COMMAND_ENUM = Enum Byte COMMANDS"

definition ACKS :: "(pystr \<times> int) list" where
  "ACKS =
    [(str ''ok'', 0x00),
     (str ''invalid_command'', 0x02),
     (str ''invalid_crc'', 0x03),
     (str ''verify_error'', 0x04),
     (str ''invalid_channel'', 0x08),
     (str ''invalid_param'', 0x09),
     (str ''general_error'', 0x0f)]"

definition ACK_ENUM :: con where
  "ACK_ENUM = Enum Byte ACKS"

definition REQUEST :: struct where
  "REQUEST =
    [(Some (str ''start_byte''), Const REQUEST_START_BYTE Byte),
     (Some (str ''command''), COMMAND_ENUM),
     (Some (str ''address''), Default Int16ub 0),
     (Some (str ''payload''), PrefixedArray Int8ul Byte),
     (Some (str ''crc''), Int16ub)]"

definition RESPONSE :: struct where
  "RESPONSE =
    [(Some (str ''start_byte''), Const RESPONSE_START_BYTE Byte),
     (Some (str ''command''), COMMAND_ENUM),
     (Some (str ''address''), Default Int16ub 0),
     (Some (str ''payload''), PrefixedArray Int8ul Byte),
     (Some (str ''ack''), ACK_ENUM),
     (Some (str ''crc''), Int16ub)]"

text \<open>
  The payload shapes: a table maps a command name to a \<open>Struct\<close> or to a bare
  construct.
\<close>

datatype shape = Struct struct | Bare con

definition REQUEST_PAYLOAD :: "(pystr \<times> shape) list" where
  "REQUEST_PAYLOAD =
    [(str ''device_reset'', Struct [(Some (str ''esc_channel''), Int8ul)]),
     (str ''device_page_erase'', Struct [(Some (str ''page_number''), Int8ul)]),
     (str ''device_read'', Struct [(Some (str ''length''), Int8ul)]),
     (str ''device_write'', Bare (PrefixedArray Int8ul Byte)),
     (str ''device_c2ck_low'', Struct [(Some (str ''esc_channel''), Int8ul)]),
     (str ''device_read_eeprom'', Struct [(Some (str ''length''), Int8ul)]),
     (str ''device_write_eeprom'', Bare (PrefixedArray Int8ul Byte)),
     (str ''interface_set_mode'', Struct [(Some (str ''esc_channel''), Int8ul)])]"

definition MODES :: "(pystr \<times> int) list" where
  "MODES = [(str ''SiLabsC2'', 0), (str ''SiLabsBLB'', 1), (str ''AtmelBLB'', 2), (str ''AtmelSK'', 3)]"

definition RESPONSE_PAYLOAD :: "(pystr \<times> shape) list" where
  "RESPONSE_PAYLOAD =
    [(str ''device_init_flash'',
      Struct [(Some (str ''HiSign''), Byte), (Some (str ''LoSign''), Byte),
              (Some (str ''BootMsg''), Byte), (Some (str ''mode''), Enum Byte MODES)])]"

text \<open>The slice \<open>frame[:-2]\<close>.\<close>

definition drop_last2 :: "'a list \<Rightarrow> 'a list" where
  "drop_last2 xs = take (length xs - 2) xs"

text \<open>
  \<open>build(command, address=0, payload=[0])\<close>. The command is any Python value: the
  layout passes it to the enumeration of the opcodes, which takes a name, an integer or
  anything else. The address is an integer and the payload a sequence of integers (a
  list, or the bytes of an image), as at every call of the repository.
\<close>

definition build_args :: "pyval \<Rightarrow> int \<Rightarrow> int list \<Rightarrow> int \<Rightarrow> container" where
  "build_args command address payload crc =
    [(str ''command'', command),
     (str ''address'', PInt address),
     (str ''payload'', PList (map PInt payload)),
     (str ''crc'', PInt crc)]"

definition build :: "pyval \<Rightarrow> int \<Rightarrow> int list \<Rightarrow> error + byte list" where
  "build command address payload =
    (case build_struct REQUEST (build_args command address payload 0) of
       Inl e \<Rightarrow> Inl (BLHeliEncodingError e)
     | Inr frame \<Rightarrow>
        (case build_struct REQUEST
                (build_args command address payload (uint (CRC16_XMODEM (drop_last2 frame)))) of
           Inl e \<Rightarrow> Inl (BLHeliEncodingError e)
         | Inr frame' \<Rightarrow> Inr frame'))"

definition parse :: "byte list \<Rightarrow> error + container" where
  "parse frame =
    (if length frame = 0 then Inl (BLHeliDecodingError NullLengthFrame)
     else case parse_struct RESPONSE frame of
       Inl e \<Rightarrow> Inl (BLHeliDecodingError (UnparsableFrame e))
     | Inr parsed \<Rightarrow>
        (case getattr parsed (str ''start_byte'') of
           Inl e \<Rightarrow> Inl (Raised e)
         | Inr sb \<Rightarrow>
            if sb \<noteq> PInt RESPONSE_START_BYTE then Inl (BLHeliDecodingError InvalidStartByte)
            else (case getattr parsed (str ''crc'') of
                    Inl e \<Rightarrow> Inl (Raised e)
                  | Inr c \<Rightarrow>
                     if c \<noteq> PInt (uint (CRC16_XMODEM (drop_last2 frame)))
                     then Inl (BLHeliDecodingError InvalidCrc)
                     else Inr parsed)))"

text \<open>The frame that a successful \<open>parse\<close> of the bytes \<open>bs\<close> returns, field by field.\<close>

definition response_frame_of :: "byte list \<Rightarrow> container" where
  "response_frame_of bs =
    (let n = unat (bs ! 4) in
     [(str ''start_byte'', PInt 0x2e),
      (str ''command'', enum_decode COMMANDS (uint (bs ! 1))),
      (str ''address'', PInt (uint (bs ! 2) * 256 + uint (bs ! 3))),
      (str ''payload'', PList (map (\<lambda>b. PInt (uint b)) (take n (drop 5 bs)))),
      (str ''ack'', enum_decode ACKS (uint (bs ! (5 + n)))),
      (str ''crc'', PInt (uint (bs ! (6 + n)) * 256 + uint (bs ! (7 + n))))])"

text \<open>The bytes of a request frame before its CRC, for a valid opcode, address and payload.\<close>

definition request_body :: "int \<Rightarrow> int \<Rightarrow> int list \<Rightarrow> byte list" where
  "request_body opc a p =
    [0x2f, word_of_int opc, word_of_int (a div 256), word_of_int (a mod 256),
     word_of_int (int (length p))] @ map word_of_int p"

text \<open>
  The request frame for an opcode, an address and a payload: the request body followed by
  its CRC.
\<close>

definition request :: "int \<Rightarrow> int \<Rightarrow> int list \<Rightarrow> byte list" where
  "request opc address payload =
    request_body opc address payload
    @ [word_of_int (uint (CRC16_XMODEM (request_body opc address payload)) div 256),
       word_of_int (uint (CRC16_XMODEM (request_body opc address payload)) mod 256)]"

text \<open>A frame object with the given start byte, command and payload bytes, as the two
  layouts produce it (address 0 and CRC 0 here: \<open>parse_payload\<close> reads neither).\<close>

definition frame_object :: "int \<Rightarrow> pyval \<Rightarrow> byte list \<Rightarrow> container" where
  "frame_object sb cmd p =
    [(str ''start_byte'', PInt sb), (str ''command'', cmd), (str ''address'', PInt 0),
     (str ''payload'', PList (map (\<lambda>b. PInt (uint b)) p)), (str ''crc'', PInt 0)]"

text \<open>
  What \<open>parse_payload\<close> returns: the raw bytes, the \<open>Container\<close> of a
  \<open>Struct\<close>, or the value of a bare construct.
\<close>

datatype payload_value = RawBytes "byte list" | Parsed container | ParsedValue pyval

text \<open>\<open>bytes(x)\<close>.\<close>

fun int_bytes :: "pyval list \<Rightarrow> exn + byte list" where
  "int_bytes [] = Inr []"
| "int_bytes (x # xs) =
    (case as_int x of
       None \<Rightarrow> Inl TypeError
     | Some i \<Rightarrow>
        if 0 \<le> i \<and> i < 256 then
          (case int_bytes xs of Inl e \<Rightarrow> Inl e | Inr bs \<Rightarrow> Inr (word_of_int i # bs))
        else Inl ValueError)"

fun to_bytes :: "pyval \<Rightarrow> exn + byte list" where
  "to_bytes (PList xs) = int_bytes xs"
| "to_bytes (PInt n) = (if n < 0 then Inl ValueError else Inr (replicate (nat n) 0))"
| "to_bytes (PBool b) = Inr (replicate (if b then 1 else 0) 0)"
| "to_bytes PNone = Inl TypeError"
| "to_bytes (PStr s) = Inl TypeError"

definition parse_shape :: "shape \<Rightarrow> byte list \<Rightarrow> exn + payload_value" where
  "parse_shape sh bs =
    (case sh of
       Struct scs \<Rightarrow> (case parse_struct scs bs of Inl e \<Rightarrow> Inl e | Inr c \<Rightarrow> Inr (Parsed c))
     | Bare sc \<Rightarrow> (case parse_con sc bs of Inl e \<Rightarrow> Inl e | Inr (v, rest) \<Rightarrow> Inr (ParsedValue v)))"

definition parse_payload :: "container \<Rightarrow> error + payload_value" where
  "parse_payload frame =
    (case getattr frame (str ''payload'') of
       Inl e \<Rightarrow> Inl (Raised e)
     | Inr pl \<Rightarrow>
    (case to_bytes pl of
       Inl e \<Rightarrow> Inl (Raised e)
     | Inr raw_payload \<Rightarrow>
    (case getattr frame (str ''start_byte'') of
       Inl e \<Rightarrow> Inl (Raised e)
     | Inr sb \<Rightarrow>
    (let payload_structs =
           (if as_int sb = Some REQUEST_START_BYTE then REQUEST_PAYLOAD else RESPONSE_PAYLOAD)
     in case getattr frame (str ''command'') of
          Inl e \<Rightarrow> Inl (Raised e)
        | Inr (PList xs) \<Rightarrow> Inl (Raised TypeError)
        | Inr (PStr command) \<Rightarrow>
           (case map_of payload_structs command of
              Some sh \<Rightarrow>
               (case parse_shape sh raw_payload of
                  Inl e \<Rightarrow> Inl (BLHeliDecodingError (UnparsablePayload e))
                | Inr v \<Rightarrow> Inr v)
            | None \<Rightarrow> Inr (RawBytes raw_payload))
        | Inr _ \<Rightarrow> Inr (RawBytes raw_payload)))))"

section \<open>The configuration image (\<open>blheli_silabs.py\<close>)\<close>

definition CONFIG_ADDRESS :: int where
  "CONFIG_ADDRESS = 0x1A00"

definition PAGE_SIZE :: int where
  "PAGE_SIZE = 0x200"

definition STARTUP_POWERS :: "(pystr \<times> int) list" where
  "STARTUP_POWERS =
    [(str ''0.031'', 1), (str ''0.047'', 2), (str ''0.063'', 3), (str ''0.094'', 4),
     (str ''0.125'', 5), (str ''0.188'', 6), (str ''0.25'', 7), (str ''0.38'', 8),
     (str ''0.50'', 9), (str ''0.75'', 10), (str ''1.00'', 11), (str ''1.25'', 12),
     (str ''1.50'', 13)]"

definition MOTOR_DIRECTIONS :: "(pystr \<times> int) list" where
  "MOTOR_DIRECTIONS =
    [(str ''normal'', 1), (str ''reversed'', 2), (str ''bidir'', 3), (str ''bidir_reversed'', 4)]"

definition ESC_MODES :: "(pystr \<times> int) list" where
  "ESC_MODES = [(str ''main'', 0xA55A), (str ''tail'', 0x5AA5), (str ''multi'', 0x55AA)]"

definition COMMUTATION_TIMINGS :: "(pystr \<times> int) list" where
  "COMMUTATION_TIMINGS =
    [(str ''low'', 1), (str ''medium_low'', 2), (str ''medium'', 3), (str ''medium_high'', 4),
     (str ''high'', 5)]"

definition BEACON_DELAYS :: "(pystr \<times> int) list" where
  "BEACON_DELAYS =
    [(str ''1_min'', 1), (str ''2_min'', 2), (str ''5_min'', 3), (str ''10_min'', 4),
     (str ''infinite'', 5)]"

definition DEMAG_COMPENSATIONS :: "(pystr \<times> int) list" where
  "DEMAG_COMPENSATIONS = [(str ''off'', 1), (str ''low'', 2), (str ''high'', 3)]"

text \<open>The degree sign of the temperature names is the code point 0xB0.\<close>

definition TEMPERATURE_PROTECTIONS :: "(pystr \<times> int) list" where
  "TEMPERATURE_PROTECTIONS =
    [(str ''disabled'', 0), (str ''80'' @ [0xB0], 1), (str ''90'' @ [0xB0], 2),
     (str ''100'' @ [0xB0], 3), (str ''110'' @ [0xB0], 4), (str ''120'' @ [0xB0], 5),
     (str ''130'' @ [0xB0], 6), (str ''140'' @ [0xB0], 7)]"

definition EEPROM_LAYOUT :: struct where
  "EEPROM_LAYOUT =
    [(Some (str ''main_revision''), Byte),
     (Some (str ''sub_revision''), Byte),
     (Some (str ''layout_revision''), Byte),
     (None, Padding 6 0xff),
     (Some (str ''startup_power''), Enum Byte STARTUP_POWERS),
     (None, Padding 1 0xff),
     (Some (str ''motor_direction''), Enum Byte MOTOR_DIRECTIONS),
     (None, Padding 1 0xff),
     (Some (str ''mode''), Enum Int16ub ESC_MODES),
     (Some (str ''programming_by_tx''), Flag),
     (None, Padding 5 0xff),
     (Some (str ''commutation_timing''), Enum Byte COMMUTATION_TIMINGS),
     (None, Padding 3 0xff),
     (Some (str ''ppm_min_throttle''), Byte),
     (Some (str ''ppm_max_throttle''), Byte),
     (Some (str ''beep_strength''), Byte),
     (Some (str ''beacon_strength''), Byte),
     (Some (str ''beacon_delay''), Enum Byte BEACON_DELAYS),
     (None, Padding 1 0xff),
     (Some (str ''demag_compensation''), Enum Byte DEMAG_COMPENSATIONS),
     (None, Padding 1 0xff),
     (Some (str ''ppm_center_throttle''), Byte),
     (None, Padding 1 0xff),
     (Some (str ''temperature_protection''), Enum Byte TEMPERATURE_PROTECTIONS),
     (Some (str ''low_rpm_power_protection''), Flag),
     (None, Padding 2 0xff),
     (Some (str ''brake_on_stop''), Flag),
     (Some (str ''led_control''), Flag),
     (None, Padding 23 0xff),
     (Some (str ''layout''), PaddedString 16),
     (Some (str ''mcu''), PaddedString 16),
     (Some (str ''name''), PaddedString 16)]"


definition COMMON_CONFIG_FIELDS :: "pystr list" where
  "COMMON_CONFIG_FIELDS =
    [str ''programming_by_tx'', str ''commutation_timing'', str ''beep_strength'',
     str ''beacon_strength'', str ''beacon_delay'', str ''demag_compensation'',
     str ''temperature_protection'', str ''low_rpm_power_protection'', str ''brake_on_stop'',
     str ''led_control'', str ''startup_power'']"

definition ESC_CONFIG_FIELDS :: "pystr list" where
  "ESC_CONFIG_FIELDS =
    [str ''motor_direction'', str ''ppm_min_throttle'', str ''ppm_max_throttle'',
     str ''ppm_center_throttle'']"

text \<open>
  The text field of 16 bytes at an offset of an image, decoded as \<open>PaddedString\<close> does:
  trailing zero bytes stripped, the rest read as UTF-8.
\<close>

definition text_at :: "nat \<Rightarrow> byte list \<Rightarrow> pystr option" where
  "text_at off bs = utf8_decode (map unat (rstrip_null (take 16 (drop off bs))))"

text \<open>
  The image that decoding the bytes \<open>bs\<close> yields, field by field at the offsets of the
  layout, given the three decoded text fields.
\<close>

definition eeprom_of :: "byte list \<Rightarrow> pystr \<Rightarrow> pystr \<Rightarrow> pystr \<Rightarrow> container" where
  "eeprom_of bs layout mcu name =
    [(str ''main_revision'', PInt (uint (bs ! 0x00))),
     (str ''sub_revision'', PInt (uint (bs ! 0x01))),
     (str ''layout_revision'', PInt (uint (bs ! 0x02))),
     (str ''startup_power'', enum_decode STARTUP_POWERS (uint (bs ! 0x09))),
     (str ''motor_direction'', enum_decode MOTOR_DIRECTIONS (uint (bs ! 0x0B))),
     (str ''mode'', enum_decode ESC_MODES (uint (bs ! 0x0D) * 256 + uint (bs ! 0x0E))),
     (str ''programming_by_tx'', PBool (bs ! 0x0F \<noteq> 0)),
     (str ''commutation_timing'', enum_decode COMMUTATION_TIMINGS (uint (bs ! 0x15))),
     (str ''ppm_min_throttle'', PInt (uint (bs ! 0x19))),
     (str ''ppm_max_throttle'', PInt (uint (bs ! 0x1A))),
     (str ''beep_strength'', PInt (uint (bs ! 0x1B))),
     (str ''beacon_strength'', PInt (uint (bs ! 0x1C))),
     (str ''beacon_delay'', enum_decode BEACON_DELAYS (uint (bs ! 0x1D))),
     (str ''demag_compensation'', enum_decode DEMAG_COMPENSATIONS (uint (bs ! 0x1F))),
     (str ''ppm_center_throttle'', PInt (uint (bs ! 0x21))),
     (str ''temperature_protection'', enum_decode TEMPERATURE_PROTECTIONS (uint (bs ! 0x23))),
     (str ''low_rpm_power_protection'', PBool (bs ! 0x24 \<noteq> 0)),
     (str ''brake_on_stop'', PBool (bs ! 0x27 \<noteq> 0)),
     (str ''led_control'', PBool (bs ! 0x28 \<noteq> 0)),
     (str ''layout'', PStr layout),
     (str ''mcu'', PStr mcu),
     (str ''name'', PStr name)]"

text \<open>
  The bytes that encoding the decoded image of \<open>bs\<close> yields, region by region: the
  reserved regions are 0xFF, a flag byte is 0 or 1, every other field has its bytes of
  \<open>bs\<close>.
\<close>

definition flag_byte :: "byte \<Rightarrow> byte" where
  "flag_byte b = (if b = 0 then 0 else 1)"

definition reencoded :: "byte list \<Rightarrow> byte list" where
  "reencoded bs =
    [bs ! 0x00, bs ! 0x01, bs ! 0x02] @ replicate 6 0xff
    @ [bs ! 0x09] @ replicate 1 0xff
    @ [bs ! 0x0B] @ replicate 1 0xff
    @ [bs ! 0x0D, bs ! 0x0E]
    @ [flag_byte (bs ! 0x0F)] @ replicate 5 0xff
    @ [bs ! 0x15] @ replicate 3 0xff
    @ [bs ! 0x19, bs ! 0x1A, bs ! 0x1B, bs ! 0x1C, bs ! 0x1D] @ replicate 1 0xff
    @ [bs ! 0x1F] @ replicate 1 0xff
    @ [bs ! 0x21] @ replicate 1 0xff
    @ [bs ! 0x23, flag_byte (bs ! 0x24)] @ replicate 2 0xff
    @ [flag_byte (bs ! 0x27), flag_byte (bs ! 0x28)] @ replicate 23 0xff
    @ take 16 (drop 0x40 bs) @ take 16 (drop 0x50 bs) @ take 16 (drop 0x60 bs)"

section \<open>The session with the device (\<open>blheli_4way.py\<close>)\<close>

text \<open>
  What the code reports through \<open>log\<close>, one constructor for each call of it.

  Modelled from the spec: \<open>blheli_log.log\<close> is not among the source files. The spec
  treats logging as a sink outside the core, to which warnings are reported without
  stopping the operation; so \<open>log\<close> appends its message to the log of the session and
  returns.
\<close>

datatype logmsg =
    LogTx "byte list"
  | LogRx "byte list"
  | LogProbing int
  | LogCommonMismatch int
  | LogInvalidParameter pystr
  | LogEsc int

text \<open>
  The state of a \<open>BLHeli4WayInterface\<close>. The serial port is outside the code: \<open>rx\<close> is
  the sequence of byte strings that the successive reads will find on the line, \<open>tx\<close> the
  byte strings written so far, and \<open>connected\<close> tells whether \<open>serial_connection\<close> is
  set.
\<close>

record session =
  verbose :: bool
  count :: int
  connected :: bool
  rx :: "byte list list"
  tx :: "byte list list"
  logs :: "logmsg list"

text \<open>A method of the class: it returns a value or raises, and leaves a new state.\<close>

type_synonym 'a io = "session \<Rightarrow> (error + 'a) \<times> session"

definition return :: "'a \<Rightarrow> 'a io" where
  "return a = (\<lambda>s. (Inr a, s))"

definition raise :: "error \<Rightarrow> 'a io" where
  "raise e = (\<lambda>s. (Inl e, s))"

definition bind :: "'a io \<Rightarrow> ('a \<Rightarrow> 'b io) \<Rightarrow> 'b io" where
  "bind m f = (\<lambda>s. case m s of (Inl e, s') \<Rightarrow> (Inl e, s') | (Inr a, s') \<Rightarrow> f a s')"

definition lift :: "error + 'a \<Rightarrow> 'a io" where
  "lift r = (\<lambda>s. (r, s))"

definition lift_exn :: "exn + 'a \<Rightarrow> 'a io" where
  "lift_exn r = (\<lambda>s. (case r of Inl e \<Rightarrow> Inl (Raised e) | Inr a \<Rightarrow> Inr a, s))"

definition log :: "logmsg \<Rightarrow> unit io" where
  "log m = (\<lambda>s. (Inr (), s\<lparr>logs := logs s @ [m]\<rparr>))"

definition py_assert :: "bool \<Rightarrow> unit io" where
  "py_assert b = (if b then return () else raise (Raised AssertionError))"

text \<open>\<open>serial_connection.write\<close>: without a connection the attribute is \<open>None\<close>.\<close>

definition serial_write :: "byte list \<Rightarrow> unit io" where
  "serial_write frame = (\<lambda>s.
    if connected s then (Inr (), s\<lparr>tx := tx s @ [frame]\<rparr>)
    else (Inl (Raised AttributeError), s))"

text \<open>
  \<open>serial_connection.read(n)\<close>: at most \<open>n\<close> bytes of what is on the line, nothing
  when the read times out; bytes beyond \<open>n\<close> stay for the next read.
\<close>

definition serial_read :: "nat \<Rightarrow> (byte list) io" where
  "serial_read n = (\<lambda>s.
    if \<not> connected s then (Inl (Raised AttributeError), s)
    else case rx s of
           [] \<Rightarrow> (Inr [], s)
         | chunk # chunks \<Rightarrow>
            (Inr (take n chunk),
             s\<lparr>rx := (if length chunk \<le> n then chunks else drop n chunk # chunks)\<rparr>))"

definition send_command :: "pystr \<Rightarrow> int \<Rightarrow> int list \<Rightarrow> unit io" where
  "send_command command address payload =
    bind (lift (build (PStr command) address payload)) (\<lambda>frame.
    bind (serial_write frame) (\<lambda>_.
    (\<lambda>s. if verbose s then log (LogTx frame) s else return () s)))"

definition read_response :: "int \<Rightarrow> container io" where
  "read_response expected_length =
    bind (if expected_length < 0 then raise (Raised ValueError)
          else serial_read (nat expected_length)) (\<lambda>response.
    bind (\<lambda>s. if verbose s then log (LogRx response) s else return () s) (\<lambda>_.
    lift (parse response)))"

text \<open>The attribute \<open>mode\<close> of what \<open>parse_payload\<close> returned.\<close>

definition payload_mode :: "payload_value \<Rightarrow> exn + pyval" where
  "payload_mode pv =
    (case pv of
       Parsed c \<Rightarrow> getattr c (str ''mode'')
     | RawBytes bs \<Rightarrow> Inl AttributeError
     | ParsedValue v \<Rightarrow> Inl AttributeError)"

definition init_flash :: "int \<Rightarrow> pystr io" where
  "init_flash esc =
    bind (send_command (str ''device_init_flash'') 0 [esc]) (\<lambda>_.
    bind (read_response 64) (\<lambda>frame.
    bind (lift (parse_payload frame)) (\<lambda>payload.
    bind (lift_exn (payload_mode payload)) (\<lambda>mode.
    if mode = PStr (str ''SiLabsC2'') \<or> mode = PStr (str ''SiLabsBLB'')
    then return (str ''silabs'')
    else return (str ''atmel'')))))"

definition erase_page :: "int \<Rightarrow> unit io" where
  "erase_page page =
    bind (send_command (str ''device_page_erase'') 0 [page]) (\<lambda>_.
    bind (read_response 64) (\<lambda>_. return ()))"

definition write_memory :: "int \<Rightarrow> int list \<Rightarrow> container io" where
  "write_memory address data =
    bind (send_command (str ''device_write'') address data) (\<lambda>_.
    read_response 64)"

definition read_memory :: "int \<Rightarrow> int \<Rightarrow> (byte list) io" where
  "read_memory address len =
    bind (send_command (str ''device_read'') address [len]) (\<lambda>_.
    bind (read_response (len + 8)) (\<lambda>frame.
    bind (lift_exn (getattr frame (str ''payload''))) (\<lambda>payload.
    lift_exn (to_bytes payload))))"

definition reset_esc :: "int \<Rightarrow> unit io" where
  "reset_esc esc =
    bind (send_command (str ''device_reset'') 0 [esc]) (\<lambda>_.
    bind (read_response 64) (\<lambda>_. return ()))"

text \<open>
  A call of \<open>reset_esc\<close> with the positional arguments given after \<open>self\<close>: the method
  takes exactly one, and Python raises \<open>TypeError\<close> on any other number.
\<close>

definition call_reset_esc :: "int list \<Rightarrow> unit io" where
  "call_reset_esc args =
    (case args of [esc] \<Rightarrow> reset_esc esc | _ \<Rightarrow> raise (Raised TypeError))"

section \<open>Reading and writing the configuration (\<open>blheli_silabs.py\<close>)\<close>

definition probe_esc :: "int \<Rightarrow> unit io" where
  "probe_esc esc =
    bind (\<lambda>s. py_assert (esc \<ge> 0 \<and> esc < count s) s) (\<lambda>_.
    bind (log (LogProbing (esc + 1))) (\<lambda>_.
    bind (init_flash esc) (\<lambda>interface_type.
    bind (call_reset_esc []) (\<lambda>_.
    if interface_type \<noteq> str ''silabs'' then raise DeviceTypeError
    else return ()))))"










definition read_eeprom :: "container io" where
  "read_eeprom =
    bind (lift_exn (sizeof EEPROM_LAYOUT)) (\<lambda>n.
    bind (read_memory CONFIG_ADDRESS (int n)) (\<lambda>data.
    lift_exn (parse_struct EEPROM_LAYOUT data)))"




text \<open>\<open>range(n)\<close>.\<close>

definition py_range :: "int \<Rightarrow> int list" where
  "py_range n = map int [0..<nat n]"


text \<open>The loop of \<open>write_config\<close> that patches the decoded image with the parameters.\<close>

fun patch :: "container \<Rightarrow> (pystr \<times> pyval) list \<Rightarrow> container io" where
  "patch eeprom [] = return eeprom"
| "patch eeprom ((key, val) # params) =
    (if key \<in> set COMMON_CONFIG_FIELDS \<or> key \<in> set ESC_CONFIG_FIELDS
     then patch (setitem eeprom key val) params
     else bind (log (LogInvalidParameter key)) (\<lambda>_. patch eeprom params))"

definition write_config :: "int \<Rightarrow> (pystr \<times> pyval) list \<Rightarrow> unit io" where
  "write_config esc params =
    bind (\<lambda>s. py_assert (esc \<ge> 0 \<and> esc < count s) s) (\<lambda>_.
    bind (init_flash esc) (\<lambda>_.
    bind read_eeprom (\<lambda>eeprom.
    bind (patch eeprom params) (\<lambda>eeprom'.
    bind (erase_page (CONFIG_ADDRESS div PAGE_SIZE)) (\<lambda>_.
    bind (lift_exn (build_struct EEPROM_LAYOUT eeprom')) (\<lambda>data.
    bind (write_memory CONFIG_ADDRESS (map uint data)) (\<lambda>_.
    reset_esc esc)))))))"

fun write_config_loop :: "int list \<Rightarrow> (pystr \<times> pyval) list \<Rightarrow> unit io" where
  "write_config_loop [] params = return ()"
| "write_config_loop (esc # rest) params =
    bind (log (LogEsc (esc + 1))) (\<lambda>_.
    bind (write_config esc params) (\<lambda>_.
    write_config_loop rest params))"

definition write_config_all :: "(pystr \<times> pyval) list \<Rightarrow> unit io" where
  "write_config_all params = (\<lambda>s. write_config_loop (py_range (count s)) params s)"

section \<open>A simulated device\<close>

text \<open>
  A well-formed response frame, as a device sends it: the start marker 0x2E, the opcode,
  the address, the payload behind its length, the ack code and the CRC of all that.
\<close>

definition response_body :: "int \<Rightarrow> int \<Rightarrow> byte list \<Rightarrow> int \<Rightarrow> byte list" where
  "response_body opc address payload ack =
    [0x2e, word_of_int opc, word_of_int (address div 256), word_of_int (address mod 256),
     word_of_int (int (length payload))] @ payload @ [word_of_int ack]"

definition response :: "int \<Rightarrow> int \<Rightarrow> byte list \<Rightarrow> int \<Rightarrow> byte list" where
  "response opc address payload ack =
    response_body opc address payload ack
    @ [word_of_int (uint (CRC16_XMODEM (response_body opc address payload ack)) div 256),
       word_of_int (uint (CRC16_XMODEM (response_body opc address payload ack)) mod 256)]"



text \<open>
  The session \<open>s\<close> after it has read up to the line contents \<open>r\<close>, written the frames
  \<open>t\<close> and logged the messages \<open>l\<close>; \<open>vlog\<close> keeps messages that only a verbose
  session logs.
\<close>

definition after :: "session \<Rightarrow> byte list list \<Rightarrow> byte list list \<Rightarrow> logmsg list \<Rightarrow> session" where
  "after s r t l = s\<lparr>rx := r, tx := tx s @ t, logs := logs s @ l\<rparr>"

definition vlog :: "session \<Rightarrow> logmsg list \<Rightarrow> logmsg list" where
  "vlog s l = (if verbose s then l else [])"



text \<open>What a verbose session logs for a sequence of requests and their responses.\<close>

definition traffic :: "byte list list \<Rightarrow> byte list list \<Rightarrow> logmsg list" where
  "traffic reqs reps = concat (map (\<lambda>(q, r). [LogTx q, LogRx r]) (zip reqs reps))"








text \<open>The instance numbers that the mismatch warnings of a log name, in order.\<close>

definition mismatches :: "logmsg list \<Rightarrow> int list" where
  "mismatches l = concat (map (\<lambda>m. case m of LogCommonMismatch i \<Rightarrow> [i] | _ \<Rightarrow> []) l)"







text \<open>
  The names that the warnings of \<open>write_config\<close> in a log report, in order, and the
  session of a quiet interface for \<open>n\<close> instances connected to a device that holds
  the image \<open>img\<close> and answers one \<open>write_config\<close>.
\<close>

definition invalid_parameters :: "logmsg list \<Rightarrow> pystr list" where
  "invalid_parameters l =
    concat (map (\<lambda>m. case m of LogInvalidParameter k \<Rightarrow> [k] | _ \<Rightarrow> []) l)"


section \<open>Verification: the frame codec\<close>

subsection \<open>Arrays of bytes and the request layout\<close>

lemma parse_Byte_Nil: "parse_con Byte [] = Inl StreamError"
  by (simp add: stream_read_def)

lemma parse_Byte_Cons: "parse_con Byte (b # rest) = Inr (PInt (uint b), rest)"
  by (simp add: stream_read_def)

lemma parse_array_Byte:
  "parse_array n (parse_con Byte) bs =
    (if length bs < n then Inl StreamError
     else Inr (map (\<lambda>b. PInt (uint b)) (take n bs), drop n bs))"
proof (induction n arbitrary: bs)
  case 0
  show ?case by simp
next
  case (Suc n)
  show ?case
  proof (cases bs)
    case Nil
    then show ?thesis by (simp add: parse_Byte_Nil del: parse_con.simps)
  next
    case (Cons b rest)
    then show ?thesis by (simp add: parse_Byte_Cons Suc del: parse_con.simps)
  qed
qed

lemma uint_byte: "0 \<le> x \<Longrightarrow> x < 256 \<Longrightarrow> uint (word_of_int x :: byte) = x"
  by (simp add: uint_word_of_int take_bit_int_eq_self)

lemma build_array_Byte_ok:
  "\<forall>x\<in>set xs. 0 \<le> x \<and> x < 256 \<Longrightarrow>
   build_array (build_con Byte) (map PInt xs) = Inr (map word_of_int xs)"
  by (induction xs) (simp_all add: pack_B_def)

lemma build_array_Byte_bad:
  "\<not> (\<forall>x\<in>set xs. 0 \<le> x \<and> x < 256) \<Longrightarrow>
   build_array (build_con Byte) (map PInt xs) = Inl FormatFieldError"
  by (induction xs) (auto simp: pack_B_def split: sum.splits)

lemma build_Enum_Byte_name:
  "build_con (Enum Byte m) (PStr c) =
    (case map_of m c of
       None \<Rightarrow> Inl MappingError
     | Some v \<Rightarrow> if 0 \<le> v \<and> v < 256 then Inr [word_of_int v] else Inl FormatFieldError)"
  by (simp add: pack_B_def split: option.splits)

lemma COMMANDS_range: "map_of COMMANDS c = Some v \<Longrightarrow> 0 \<le> v \<and> v < 256"
  by (auto simp: COMMANDS_def split: if_splits)

lemma build_PrefixedArray_ints:
  "build_con (PrefixedArray Int8ul Byte) (PList (map PInt p)) =
    (if 256 \<le> length p then Inl FormatFieldError
     else if \<not> (\<forall>x\<in>set p. 0 \<le> x \<and> x < 256) then Inl FormatFieldError
     else Inr (word_of_int (int (length p)) # map word_of_int p))"
  using build_array_Byte_ok [of p] build_array_Byte_bad [of p]
  by (auto simp: pack_B_def simp del: build_con.simps(1))

lemma REQUEST_build:
  "build_struct REQUEST (build_args (PStr c) a p crc) =
    (case map_of COMMANDS c of
       None \<Rightarrow> Inl MappingError
     | Some opc \<Rightarrow>
        if \<not> (0 \<le> a \<and> a < 65536) then Inl FormatFieldError
        else if 256 \<le> length p then Inl FormatFieldError
        else if \<not> (\<forall>x\<in>set p. 0 \<le> x \<and> x < 256) then Inl FormatFieldError
        else if \<not> (0 \<le> crc \<and> crc < 65536) then Inl FormatFieldError
        else Inr ([0x2f, word_of_int opc, word_of_int (a div 256), word_of_int (a mod 256),
                   word_of_int (int (length p))] @ map word_of_int p
                  @ [word_of_int (crc div 256), word_of_int (crc mod 256)]))"
proof -
  have names: "str ''command'' \<noteq> str ''start_byte''" "str ''address'' \<noteq> str ''start_byte''"
    "str ''payload'' \<noteq> str ''start_byte''" "str ''crc'' \<noteq> str ''start_byte''"
    "str ''address'' \<noteq> str ''command''" "str ''payload'' \<noteq> str ''command''"
    "str ''crc'' \<noteq> str ''command''" "str ''payload'' \<noteq> str ''address''"
    "str ''crc'' \<noteq> str ''address''" "str ''crc'' \<noteq> str ''payload''"
    by (simp_all add: str_def)
  show ?thesis
    using COMMANDS_range [of c]
    by (simp add: REQUEST_def build_args_def COMMAND_ENUM_def names names [symmetric]
        build_Enum_Byte_name build_PrefixedArray_ints pack_B_def pack_H_def
        REQUEST_START_BYTE_def
        del: build_con.simps(5,8)
        split: option.splits)
qed

text \<open>The same layout built from a command that is no name.\<close>

lemma REQUEST_build_int:
  assumes "as_int cmd = Some i"
  shows "build_struct REQUEST (build_args cmd a p crc) =
    (if \<not> (0 \<le> i \<and> i < 256) then Inl FormatFieldError
     else if \<not> (0 \<le> a \<and> a < 65536) then Inl FormatFieldError
     else if 256 \<le> length p then Inl FormatFieldError
     else if \<not> (\<forall>x\<in>set p. 0 \<le> x \<and> x < 256) then Inl FormatFieldError
     else if \<not> (0 \<le> crc \<and> crc < 65536) then Inl FormatFieldError
     else Inr ([0x2f, word_of_int i, word_of_int (a div 256), word_of_int (a mod 256),
                word_of_int (int (length p))] @ map word_of_int p
               @ [word_of_int (crc div 256), word_of_int (crc mod 256)]))"
proof -
  have names: "str ''command'' \<noteq> str ''start_byte''" "str ''address'' \<noteq> str ''start_byte''"
    "str ''payload'' \<noteq> str ''start_byte''" "str ''crc'' \<noteq> str ''start_byte''"
    "str ''address'' \<noteq> str ''command''" "str ''payload'' \<noteq> str ''command''"
    "str ''crc'' \<noteq> str ''command''" "str ''payload'' \<noteq> str ''address''"
    "str ''crc'' \<noteq> str ''address''" "str ''crc'' \<noteq> str ''payload''"
    by (simp_all add: str_def)
  have cmd: "build_con (Enum Byte COMMANDS) cmd =
      (if 0 \<le> i \<and> i < 256 then Inr [word_of_int i] else Inl FormatFieldError)"
    using assms by (cases cmd) (simp_all add: pack_B_def)
  show ?thesis
    by (simp add: REQUEST_def build_args_def COMMAND_ENUM_def names names [symmetric]
        cmd build_PrefixedArray_ints pack_B_def pack_H_def REQUEST_START_BYTE_def
        del: build_con.simps(5,8))
qed

lemma REQUEST_build_other:
  "build_struct REQUEST (build_args PNone a p crc) = Inl MappingError"
  "build_struct REQUEST (build_args (PList xs) a p crc) = Inl TypeError"
  by (simp_all add: REQUEST_def build_args_def COMMAND_ENUM_def str_def pack_B_def
      REQUEST_START_BYTE_def)

subsection \<open>Parsing the constructs of the two frame layouts\<close>

lemma parse_Enum_Byte_Nil: "parse_con (Enum Byte m) [] = Inl StreamError"
  by (simp add: stream_read_def)

lemma parse_Enum_Byte_Cons:
  "parse_con (Enum Byte m) (b # rest) = Inr (enum_decode m (uint b), rest)"
  by (simp add: stream_read_def)

lemma parse_Int16ub_short: "length bs < 2 \<Longrightarrow> parse_con Int16ub bs = Inl StreamError"
  by (simp add: stream_read_def)

lemma parse_Int16ub_Cons:
  "parse_con Int16ub (h # l # rest) = Inr (PInt (uint h * 256 + uint l), rest)"
  by (simp add: stream_read_def)

lemma parse_Const_Byte_Nil: "parse_con (Const v Byte) [] = Inl StreamError"
  by (simp add: stream_read_def)

lemma parse_Const_Byte_Cons:
  "parse_con (Const v Byte) (b # rest) =
    (if uint b \<noteq> v then Inl ConstError else Inr (PInt (uint b), rest))"
  by (simp add: stream_read_def)

lemma parse_PrefixedArray_Nil: "parse_con (PrefixedArray Int8ul Byte) [] = Inl StreamError"
  by (simp add: stream_read_def)

lemma parse_PrefixedArray_Cons:
  "parse_con (PrefixedArray Int8ul Byte) (n # rest) =
    (if length rest < unat n then Inl StreamError
     else Inr (PList (map (\<lambda>b. PInt (uint b)) (take (unat n) rest)), drop (unat n) rest))"
proof -
  have "parse_con (PrefixedArray Int8ul Byte) (n # rest) =
      (case parse_array (unat n) (parse_con Byte) rest of
         Inl e \<Rightarrow> Inl e
       | Inr (items, rest') \<Rightarrow> Inr (PList items, rest'))"
    by (simp add: stream_read_def del: parse_con.simps(1))
  then show ?thesis
    by (simp add: parse_array_Byte del: parse_con.simps)
qed

lemmas parse_con_bytes =
  parse_Enum_Byte_Nil parse_Enum_Byte_Cons parse_Int16ub_short parse_Int16ub_Cons
  parse_Const_Byte_Nil parse_Const_Byte_Cons parse_PrefixedArray_Nil parse_PrefixedArray_Cons
  parse_Byte_Nil parse_Byte_Cons

lemma drop_three:
  "n + 3 \<le> length xs \<Longrightarrow>
   drop n xs = xs ! n # xs ! (n + 1) # xs ! (n + 2) # drop (n + 3) xs"
  by (simp add: Cons_nth_drop_Suc numeral_3_eq_3)

lemma drop_short:
  "\<not> n + 3 \<le> length xs \<Longrightarrow> length (drop n xs) < 3"
  by simp

lemma field_names_distinct:
  "distinct [str ''start_byte'', str ''command'', str ''address'', str ''payload'',
             str ''ack'', str ''crc'']"
  by (simp add: str_def)

lemma tail_parse:
  "parse_fields [(Some (str ''ack''), Enum Byte ACKS), (Some (str ''crc''), Int16ub)] obj t =
    (if length t < 3 then Inl StreamError
     else Inr (setitem (setitem obj (str ''ack'') (enum_decode ACKS (uint (t ! 0))))
                 (str ''crc'') (PInt (uint (t ! 1) * 256 + uint (t ! 2))), drop 3 t))"
proof (cases t)
  case Nil
  then show ?thesis by (simp add: parse_con_bytes del: parse_con.simps)
next
  case (Cons a t1)
  show ?thesis
  proof (cases t1)
    case Nil
    with Cons show ?thesis by (simp add: parse_con_bytes del: parse_con.simps)
  next
    case (Cons c1 t2)
    note c1 = this
    show ?thesis
    proof (cases t2)
      case Nil
      with c1 \<open>t = a # t1\<close> show ?thesis by (simp add: parse_con_bytes del: parse_con.simps)
    next
      case (Cons c2 t3)
      with c1 \<open>t = a # t1\<close> show ?thesis by (simp add: parse_con_bytes del: parse_con.simps)
    qed
  qed
qed

lemma b0_eq: "uint (b0 :: byte) \<noteq> 46 \<longleftrightarrow> b0 \<noteq> 0x2e"
  by (simp add: word_uint_eq_iff)

lemma nth_past5:
  "(a # b # c # d # e # xs) ! (5 + n) = xs ! n"
  "(a # b # c # d # e # xs) ! (6 + n) = xs ! (n + 1)"
  "(a # b # c # d # e # xs) ! (7 + n) = xs ! (n + 2)"
proof -
  have "5 + n = Suc (Suc (Suc (Suc (Suc n))))" "6 + n = Suc (Suc (Suc (Suc (Suc (Suc n)))))"
    "7 + n = Suc (Suc (Suc (Suc (Suc (Suc (Suc n))))))" by simp_all
  then show "(a # b # c # d # e # xs) ! (5 + n) = xs ! n"
  "(a # b # c # d # e # xs) ! (6 + n) = xs ! (n + 1)"
  "(a # b # c # d # e # xs) ! (7 + n) = xs ! (n + 2)" by simp_all
qed

lemma response_frame_of_Cons:
  "response_frame_of (b0 # b1 # b2 # b3 # b4 # rest) =
     [(str ''start_byte'', PInt 0x2e),
      (str ''command'', enum_decode COMMANDS (uint b1)),
      (str ''address'', PInt (uint b2 * 256 + uint b3)),
      (str ''payload'', PList (map (\<lambda>b. PInt (uint b)) (take (unat b4) rest))),
      (str ''ack'', enum_decode ACKS (uint (rest ! unat b4))),
      (str ''crc'', PInt (uint (rest ! (unat b4 + 1)) * 256 + uint (rest ! (unat b4 + 2))))]"
  by (simp add: response_frame_of_def Let_def nth_past5)

lemma parse_Default: "parse_con (Default sc v) bs = parse_con sc bs"
  by simp

lemma head_parse:
  "parse_fields RESPONSE [] (b0 # b1 # b2 # b3 # b4 # rest) =
    (if b0 \<noteq> 0x2e then Inl ConstError
     else if length rest < unat b4 then Inl StreamError
     else parse_fields [(Some (str ''ack''), Enum Byte ACKS), (Some (str ''crc''), Int16ub)]
       [(str ''start_byte'', PInt 0x2e),
        (str ''command'', enum_decode COMMANDS (uint b1)),
        (str ''address'', PInt (uint b2 * 256 + uint b3)),
        (str ''payload'', PList (map (\<lambda>b. PInt (uint b)) (take (unat b4) rest)))]
       (drop (unat b4) rest))"
proof -
  have names: "str ''command'' \<noteq> str ''start_byte''" "str ''address'' \<noteq> str ''start_byte''"
    "str ''payload'' \<noteq> str ''start_byte''" 
    "str ''address'' \<noteq> str ''command''" "str ''payload'' \<noteq> str ''command''"
    "str ''payload'' \<noteq> str ''address''"
    by (simp_all add: str_def)
  show ?thesis
    using b0_eq [of b0]
    by (simp add: RESPONSE_def COMMAND_ENUM_def ACK_ENUM_def RESPONSE_START_BYTE_def
        parse_con_bytes names names [symmetric] parse_Default
        del: parse_con.simps)
qed

lemma RESPONSE_parse_Cons:
  "parse_fields RESPONSE [] (b0 # b1 # b2 # b3 # b4 # rest) =
    (if b0 \<noteq> 0x2e then Inl ConstError
     else if length rest < unat b4 + 3 then Inl StreamError
     else Inr (response_frame_of (b0 # b1 # b2 # b3 # b4 # rest), drop (unat b4 + 3) rest))"
proof -
  have names: "str ''ack'' \<noteq> str ''start_byte''" "str ''ack'' \<noteq> str ''command''"
    "str ''ack'' \<noteq> str ''address''" "str ''ack'' \<noteq> str ''payload''"
    "str ''crc'' \<noteq> str ''ack''" "str ''crc'' \<noteq> str ''start_byte''"
    "str ''crc'' \<noteq> str ''command''" "str ''crc'' \<noteq> str ''address''"
    "str ''crc'' \<noteq> str ''payload''"
    by (simp_all add: str_def)
  have len: "length rest < unat b4 + 3 \<longleftrightarrow> length rest < unat b4 \<or> length rest - unat b4 < 3"
    by auto
  show ?thesis
    unfolding head_parse tail_parse response_frame_of_Cons len
    by (simp add: names names [symmetric] add.commute [of 3])
qed

lemma RESPONSE_parse_short:
  "bs \<noteq> [] \<Longrightarrow> bs ! 0 = 0x2e \<Longrightarrow> length bs < 5 \<Longrightarrow> parse_fields RESPONSE [] bs = Inl StreamError"
proof -
  assume a: "bs \<noteq> []" "bs ! 0 = 0x2e" "length bs < 5"
  then consider b0 where "bs = [b0]" | b0 b1 where "bs = [b0, b1]"
    | b0 b1 b2 where "bs = [b0, b1, b2]" | b0 b1 b2 b3 where "bs = [b0, b1, b2, b3]"
    by (cases bs; cases "tl bs"; cases "tl (tl bs)"; cases "tl (tl (tl bs))"; cases "tl (tl (tl (tl bs)))") auto
  then show ?thesis
    using a(2)
    by cases (simp_all add: RESPONSE_def COMMAND_ENUM_def ACK_ENUM_def RESPONSE_START_BYTE_def
        parse_con_bytes parse_Default del: parse_con.simps)
qed

lemma RESPONSE_parse_bad_start:
  "bs \<noteq> [] \<Longrightarrow> bs ! 0 \<noteq> 0x2e \<Longrightarrow> parse_fields RESPONSE [] bs = Inl ConstError"
  using b0_eq [of "hd bs"]
  by (cases bs) (simp_all add: RESPONSE_def RESPONSE_START_BYTE_def parse_con_bytes
      del: parse_con.simps)

lemma RESPONSE_parse:
  "parse_struct RESPONSE bs =
    (if bs = [] then Inl StreamError
     else if bs ! 0 \<noteq> 0x2e then Inl ConstError
     else if length bs < 5 \<or> length bs < 8 + unat (bs ! 4) then Inl StreamError
     else Inr (response_frame_of bs))"
proof (cases "5 \<le> length bs")
  case False
  then show ?thesis
    using RESPONSE_parse_short [of bs] RESPONSE_parse_bad_start [of bs]
    by (auto simp: parse_struct_def RESPONSE_def RESPONSE_START_BYTE_def parse_con_bytes
        simp del: parse_con.simps)
next
  case True
  then obtain b0 b1 b2 b3 b4 rest where bs: "bs = b0 # b1 # b2 # b3 # b4 # rest"
    by (cases bs; cases "tl bs"; cases "tl (tl bs)"; cases "tl (tl (tl bs))"; cases "tl (tl (tl (tl bs)))") auto
  show ?thesis
    unfolding parse_struct_def bs RESPONSE_parse_Cons
    by auto
qed

subsection \<open>What \<open>parse\<close> accepts\<close>

lemma getattr_response_frame_of:
  "getattr (response_frame_of bs) (str ''start_byte'') = Inr (PInt 0x2e)"
  "getattr (response_frame_of bs) (str ''crc'') =
     Inr (PInt (uint (bs ! (6 + unat (bs ! 4))) * 256 + uint (bs ! (7 + unat (bs ! 4)))))"
  "getattr (response_frame_of bs) (str ''command'') = Inr (enum_decode COMMANDS (uint (bs ! 1)))"
  "getattr (response_frame_of bs) (str ''payload'') =
     Inr (PList (map (\<lambda>b. PInt (uint b)) (take (unat (bs ! 4)) (drop 5 bs))))"
  by (simp_all add: response_frame_of_def Let_def getattr_def str_def)

lemma parse_eq:
  "parse bs =
    (if bs = [] then Inl (BLHeliDecodingError NullLengthFrame)
     else if bs ! 0 \<noteq> 0x2e then Inl (BLHeliDecodingError (UnparsableFrame ConstError))
     else if length bs < 5 \<or> length bs < 8 + unat (bs ! 4)
       then Inl (BLHeliDecodingError (UnparsableFrame StreamError))
     else if uint (bs ! (6 + unat (bs ! 4))) * 256 + uint (bs ! (7 + unat (bs ! 4)))
             \<noteq> uint (CRC16_XMODEM (drop_last2 bs))
       then Inl (BLHeliDecodingError InvalidCrc)
     else Inr (response_frame_of bs))"
  by (simp add: parse_def RESPONSE_parse getattr_response_frame_of RESPONSE_START_BYTE_def)

subsection \<open>Evaluating the CRC and the frames\<close>

lemma crc_byte_unfold:
  "crc_byte c b =
    crc_shift (crc_shift (crc_shift (crc_shift (crc_shift (crc_shift (crc_shift (crc_shift
      (c XOR push_bit 8 (ucast b)))))))))"
  by (simp add: crc_byte_def numeral_eq_Suc)

lemmas crc_eval = CRC16_XMODEM_def crc_byte_unfold crc_shift_def drop_last2_def

lemma uint_crc_range: "0 \<le> uint (c :: 16 word) \<and> uint c < 65536"
  using uint_lt2p [of c] by simp

lemma drop_last2_append2: "drop_last2 (xs @ [a, b]) = xs"
  by (simp add: drop_last2_def)

text \<open>The body of a request frame: everything before the CRC.\<close>

lemma build_eq:
  "build (PStr c) a p =
    (case map_of COMMANDS c of
       None \<Rightarrow> Inl (BLHeliEncodingError MappingError)
     | Some opc \<Rightarrow>
        if \<not> (0 \<le> a \<and> a < 65536) \<or> 256 \<le> length p \<or> \<not> (\<forall>x\<in>set p. 0 \<le> x \<and> x < 256)
        then Inl (BLHeliEncodingError FormatFieldError)
        else Inr (request_body opc a p
                  @ [word_of_int (uint (CRC16_XMODEM (request_body opc a p)) div 256),
                     word_of_int (uint (CRC16_XMODEM (request_body opc a p)) mod 256)]))"
proof -
  have body: "build_struct REQUEST (build_args (PStr c) a p crc) =
    (case map_of COMMANDS c of
       None \<Rightarrow> Inl MappingError
     | Some opc \<Rightarrow>
        if \<not> (0 \<le> a \<and> a < 65536) then Inl FormatFieldError
        else if 256 \<le> length p then Inl FormatFieldError
        else if \<not> (\<forall>x\<in>set p. 0 \<le> x \<and> x < 256) then Inl FormatFieldError
        else if \<not> (0 \<le> crc \<and> crc < 65536) then Inl FormatFieldError
        else Inr (request_body opc a p
                  @ [word_of_int (crc div 256), word_of_int (crc mod 256)]))" for crc
    by (simp add: REQUEST_build request_body_def split: option.splits)
  show ?thesis
    using uint_crc_range
    by (auto simp: build_def body drop_last2_append2 split: option.splits)
qed

lemma build_int_eq:
  assumes "as_int cmd = Some i"
  shows "build cmd a p =
    (if \<not> (0 \<le> i \<and> i < 256) \<or> \<not> (0 \<le> a \<and> a < 65536) \<or> 256 \<le> length p
         \<or> \<not> (\<forall>x\<in>set p. 0 \<le> x \<and> x < 256)
     then Inl (BLHeliEncodingError FormatFieldError)
     else Inr (request i a p))"
proof -
  have body: "build_struct REQUEST (build_args cmd a p crc) =
    (if \<not> (0 \<le> i \<and> i < 256) then Inl FormatFieldError
     else if \<not> (0 \<le> a \<and> a < 65536) then Inl FormatFieldError
     else if 256 \<le> length p then Inl FormatFieldError
     else if \<not> (\<forall>x\<in>set p. 0 \<le> x \<and> x < 256) then Inl FormatFieldError
     else if \<not> (0 \<le> crc \<and> crc < 65536) then Inl FormatFieldError
     else Inr (request_body i a p
               @ [word_of_int (crc div 256), word_of_int (crc mod 256)]))" for crc
    by (simp add: REQUEST_build_int [OF assms] request_body_def)
  show ?thesis
    using uint_crc_range
    by (auto simp: build_def body drop_last2_append2 request_def)
qed

lemma build_other_eq:
  "build PNone a p = Inl (BLHeliEncodingError MappingError)"
  "build (PList xs) a p = Inl (BLHeliEncodingError TypeError)"
  by (simp_all add: build_def REQUEST_build_other)

subsection \<open>The claims on \<open>parse\<close> and \<open>build\<close>\<close>

text \<open>
  C3 (as amended). \<open>parse\<close> raises a Decoding error exactly when the input is empty, its
  first byte is not 0x2E, it has fewer than 5 bytes or fewer than 8 bytes plus the payload
  length its fifth byte announces, or the two bytes after the ack byte differ from the
  CRC16/XMODEM of the whole input but its last two bytes. On every other input, also one
  with an opcode or an ack code outside the enumerations (returned as bare integers) and
  one with bytes after the frame, it returns the decoded fields. The frame
  2E3400000100004263 parses to command \<open>interface_exit\<close>, and 2E3400000100004264 raises
  a Decoding error.
\<close>

theorem parse_raises_exactly:
  "parse bs =
    (if bs = [] then Inl (BLHeliDecodingError NullLengthFrame)
     else if bs ! 0 \<noteq> 0x2e then Inl (BLHeliDecodingError (UnparsableFrame ConstError))
     else if length bs < 5 \<or> length bs < 8 + unat (bs ! 4)
       then Inl (BLHeliDecodingError (UnparsableFrame StreamError))
     else if uint (bs ! (6 + unat (bs ! 4))) * 256 + uint (bs ! (7 + unat (bs ! 4)))
             \<noteq> uint (CRC16_XMODEM (drop_last2 bs))
       then Inl (BLHeliDecodingError InvalidCrc)
     else Inr (response_frame_of bs))
   \<and> (\<exists>f. parse [0x2E, 0x34, 0x00, 0x00, 0x01, 0x00, 0x00, 0x42, 0x63] = Inr f
          \<and> getattr f (str ''command'') = Inr (PStr (str ''interface_exit'')))
   \<and> parse [0x2E, 0x34, 0x00, 0x00, 0x01, 0x00, 0x00, 0x42, 0x64]
        = Inl (BLHeliDecodingError InvalidCrc)"
proof (intro conjI)
  show "parse bs =
    (if bs = [] then Inl (BLHeliDecodingError NullLengthFrame)
     else if bs ! 0 \<noteq> 0x2e then Inl (BLHeliDecodingError (UnparsableFrame ConstError))
     else if length bs < 5 \<or> length bs < 8 + unat (bs ! 4)
       then Inl (BLHeliDecodingError (UnparsableFrame StreamError))
     else if uint (bs ! (6 + unat (bs ! 4))) * 256 + uint (bs ! (7 + unat (bs ! 4)))
             \<noteq> uint (CRC16_XMODEM (drop_last2 bs))
       then Inl (BLHeliDecodingError InvalidCrc)
     else Inr (response_frame_of bs))"
    by (rule parse_eq)
  have "parse [0x2E, 0x34, 0x00, 0x00, 0x01, 0x00, 0x00, 0x42, 0x63]
      = Inr (response_frame_of [0x2E, 0x34, 0x00, 0x00, 0x01, 0x00, 0x00, 0x42, 0x63])"
    by (simp add: parse_eq crc_eval)
  moreover have "getattr (response_frame_of [0x2E, 0x34, 0x00, 0x00, 0x01, 0x00, 0x00, 0x42, 0x63])
      (str ''command'') = Inr (PStr (str ''interface_exit''))"
    unfolding getattr_response_frame_of
    by (simp add: enum_decode_def COMMANDS_def str_def)
  ultimately show "\<exists>f. parse [0x2E, 0x34, 0x00, 0x00, 0x01, 0x00, 0x00, 0x42, 0x63] = Inr f
          \<and> getattr f (str ''command'') = Inr (PStr (str ''interface_exit''))"
    by blast
  show "parse [0x2E, 0x34, 0x00, 0x00, 0x01, 0x00, 0x00, 0x42, 0x64]
        = Inl (BLHeliDecodingError InvalidCrc)"
    by (simp add: parse_eq crc_eval)
qed

text \<open>
  The claim as stated fails: 0x36 is no opcode and 0x07 no ack code, and the frame
  2E36000000070427 is parsed without an error, both values returned as integers.
\<close>

theorem parse_unknown_codes_counterexample:
  "0x36 \<notin> snd ` set COMMANDS \<and> 0x07 \<notin> snd ` set ACKS
   \<and> parse [0x2E, 0x36, 0x00, 0x00, 0x00, 0x07, 0x04, 0x27] =
       Inr [(str ''start_byte'', PInt 0x2e), (str ''command'', PInt 0x36),
            (str ''address'', PInt 0), (str ''payload'', PList []),
            (str ''ack'', PInt 0x07), (str ''crc'', PInt 0x0427)]"
proof (intro conjI)
  show "0x36 \<notin> snd ` set COMMANDS" by (simp add: COMMANDS_def)
  show "0x07 \<notin> snd ` set ACKS" by (simp add: ACKS_def)
  show "parse [0x2E, 0x36, 0x00, 0x00, 0x00, 0x07, 0x04, 0x27] =
       Inr [(str ''start_byte'', PInt 0x2e), (str ''command'', PInt 0x36),
            (str ''address'', PInt 0), (str ''payload'', PList []),
            (str ''ack'', PInt 0x07), (str ''crc'', PInt 0x0427)]"
    by (simp add: parse_eq crc_eval response_frame_of_def enum_decode_def COMMANDS_def
        ACKS_def str_def)
qed

text \<open>
  C4. \<open>build('device_erase_all')\<close>, with the default address 0 and the default
  payload \<open>[0]\<close>, is 2f3800000100cdf9, and
  \<open>build('device_read', address=0xaabb, payload=[15])\<close> is 2f3aaabb010ff446.
\<close>

theorem build_test_vectors:
  "build (PStr (str ''device_erase_all'')) 0 [0]
     = Inr [0x2f, 0x38, 0x00, 0x00, 0x01, 0x00, 0xcd, 0xf9]
   \<and> build (PStr (str ''device_read'')) 0xaabb [15]
     = Inr [0x2f, 0x3a, 0xaa, 0xbb, 0x01, 0x0f, 0xf4, 0x46]"
  by (simp add: build_eq COMMANDS_def str_def request_body_def crc_eval)

text \<open>
  C9 (as amended). \<open>build\<close> raises an Encoding error whenever the command is a name
  that is not one of the known opcode names, is \<open>None\<close> or a list, or is an integer
  outside 0 to 255; and, whatever the command, whenever the address is outside 0 to
  65535, the payload has more than 255 values or one of its values is no byte. An
  integer command from 0 to 255 (a boolean counts as 0 or 1) is no error: it is written
  as the opcode byte itself, known opcode or not. On every other input \<open>build\<close>
  returns the bytes that its three arguments determine, the request body followed by the
  CRC of that body, so two calls with the same arguments return the same bytes.
\<close>

theorem build_encoding_errors:
  "build command address payload =
    (case (case command of
             PStr name \<Rightarrow>
               (case map_of COMMANDS name of None \<Rightarrow> Inl MappingError | Some opc \<Rightarrow> Inr opc)
           | PInt i \<Rightarrow> if 0 \<le> i \<and> i < 256 then Inr i else Inl FormatFieldError
           | PBool b \<Rightarrow> Inr (if b then 1 else 0)
           | PNone \<Rightarrow> Inl MappingError
           | PList xs \<Rightarrow> Inl TypeError) of
       Inl e \<Rightarrow> Inl (BLHeliEncodingError e)
     | Inr opc \<Rightarrow>
        if \<not> (0 \<le> address \<and> address < 65536) \<or> 255 < length payload
           \<or> \<not> (\<forall>x\<in>set payload. 0 \<le> x \<and> x < 256)
        then Inl (BLHeliEncodingError FormatFieldError)
        else Inr (request opc address payload))"
proof (cases command)
  case PNone
  then show ?thesis by (simp add: build_other_eq)
next
  case (PBool b)
  then show ?thesis
    by (cases b)
      (simp_all add: build_int_eq [of "PBool True" 1] build_int_eq [of "PBool False" 0]
        less_Suc_eq_le)
next
  case (PInt i)
  then show ?thesis by (simp add: build_int_eq [of "PInt i" i] less_Suc_eq_le)
next
  case (PStr name)
  then show ?thesis
    by (cases "map_of COMMANDS name") (simp_all add: build_eq request_def less_Suc_eq_le)
next
  case (PList xs)
  then show ?thesis by (simp add: build_other_eq)
qed

text \<open>
  The theorem at six inputs: an unknown name, a payload of 256 values, a command that is
  \<open>None\<close>, the integer 256, and two valid ones, a name and the integer of an opcode.
\<close>

theorem build_encoding_errors_witness:
  "build (PStr (str ''device_bogus'')) 0 [0] = Inl (BLHeliEncodingError MappingError)
   \<and> build (PStr (str ''device_read'')) 0 (replicate 256 0)
       = Inl (BLHeliEncodingError FormatFieldError)
   \<and> build PNone 0 [0] = Inl (BLHeliEncodingError MappingError)
   \<and> build (PInt 256) 0 [0] = Inl (BLHeliEncodingError FormatFieldError)
   \<and> build (PStr (str ''device_read'')) 0xaabb [15]
       = Inr [0x2f, 0x3a, 0xaa, 0xbb, 0x01, 0x0f, 0xf4, 0x46]
   \<and> build (PInt 0x3a) 0xaabb [15] = Inr [0x2f, 0x3a, 0xaa, 0xbb, 0x01, 0x0f, 0xf4, 0x46]"
proof -
  have 1: "map_of COMMANDS (str ''device_bogus'') = None"
    "map_of COMMANDS (str ''device_read'') = Some 0x3a"
    by (simp_all add: COMMANDS_def str_def)
  have 2: "request 0x3a 0xaabb [15] = [0x2f, 0x3a, 0xaa, 0xbb, 0x01, 0x0f, 0xf4, 0x46]"
    by (simp add: request_def request_body_def crc_eval)
  show ?thesis
    using build_encoding_errors [of "PStr (str ''device_bogus'')" 0 "[0]"]
      build_encoding_errors [of "PStr (str ''device_read'')" 0 "replicate 256 0"]
      build_encoding_errors [of PNone 0 "[0]"]
      build_encoding_errors [of "PInt 256" 0 "[0]"]
      build_encoding_errors [of "PStr (str ''device_read'')" "0xaabb" "[15]"]
      build_encoding_errors [of "PInt 0x3a" "0xaabb" "[15]"]
    by (simp add: 1 2)
qed

text \<open>
  The claim as stated fails: the integer 0x36 is the opcode of no command, and
  \<open>build(0x36)\<close> raises nothing and returns the frame 2f36000001000251.
\<close>

theorem build_unknown_opcode_counterexample:
  "0x36 \<notin> snd ` set COMMANDS
   \<and> build (PInt 0x36) 0 [0] = Inr [0x2f, 0x36, 0x00, 0x00, 0x01, 0x00, 0x02, 0x51]"
  by (simp add: build_int_eq [of "PInt 0x36" "0x36"] COMMANDS_def request_def request_body_def
      crc_eval)

subsection \<open>Parsing a built request with the request layout\<close>

lemma REQUEST_parse_Cons:
  "parse_fields REQUEST [] (b0 # b1 # b2 # b3 # b4 # rest) =
    (if b0 \<noteq> 0x2f then Inl ConstError
     else if length rest < unat b4 + 2 then Inl StreamError
     else Inr ([(str ''start_byte'', PInt 0x2f),
                (str ''command'', enum_decode COMMANDS (uint b1)),
                (str ''address'', PInt (uint b2 * 256 + uint b3)),
                (str ''payload'', PList (map (\<lambda>b. PInt (uint b)) (take (unat b4) rest))),
                (str ''crc'', PInt (uint (rest ! unat b4) * 256 + uint (rest ! (unat b4 + 1))))],
               drop (unat b4 + 2) rest))"
proof -
  have names: "str ''command'' \<noteq> str ''start_byte''" "str ''address'' \<noteq> str ''start_byte''"
    "str ''payload'' \<noteq> str ''start_byte''" "str ''crc'' \<noteq> str ''start_byte''"
    "str ''address'' \<noteq> str ''command''" "str ''payload'' \<noteq> str ''command''"
    "str ''crc'' \<noteq> str ''command''" "str ''payload'' \<noteq> str ''address''"
    "str ''crc'' \<noteq> str ''address''" "str ''crc'' \<noteq> str ''payload''"
    by (simp_all add: str_def)
  have b0: "uint b0 \<noteq> 47 \<longleftrightarrow> b0 \<noteq> 0x2f"
    by (simp add: word_uint_eq_iff)
  have tail: "parse_con Int16ub t =
      (if length t < 2 then Inl StreamError
       else Inr (PInt (uint (t ! 0) * 256 + uint (t ! 1)), drop 2 t))" for t
    by (cases t; cases "tl t") (auto simp: parse_Int16ub_short parse_Int16ub_Cons simp del: parse_con.simps)
  have d: "drop (unat b4) rest ! 0 = rest ! unat b4" "drop (unat b4) rest ! 1 = rest ! (unat b4 + 1)"
    if "\<not> length rest < unat b4 + 2"
    using that by simp_all
  show ?thesis
    using b0 d
    by (auto simp: REQUEST_def COMMAND_ENUM_def REQUEST_START_BYTE_def
        parse_Enum_Byte_Cons parse_Const_Byte_Cons parse_PrefixedArray_Cons parse_Int16ub_Cons
        names names [symmetric] parse_Default tail add.commute [of 2]
        simp del: parse_con.simps)
qed

lemma enum_decode_COMMANDS:
  "map_of COMMANDS c = Some v \<Longrightarrow> enum_decode COMMANDS v = PStr c"
  by (auto simp: COMMANDS_def enum_decode_def split: if_splits)

lemma uint_hi_lo:
  "0 \<le> a \<Longrightarrow> a < 65536 \<Longrightarrow>
   uint (word_of_int (a div 256) :: byte) * 256 + uint (word_of_int (a mod 256) :: byte) = a"
proof -
  assume a: "0 \<le> a" "a < 65536"
  then have "0 \<le> a div 256" "a div 256 < 256" "0 \<le> a mod 256" "a mod 256 < 256"
    by auto
  then show ?thesis
    by (simp add: uint_byte)
qed

lemma map_uint_word_of_int:
  "\<forall>x\<in>set p. 0 \<le> x \<and> x < 256 \<Longrightarrow>
   map (\<lambda>b. PInt (uint b)) (map word_of_int p :: byte list) = map PInt p"
  by (induction p) (simp_all add: uint_byte)

lemma unat_length_byte:
  "length p \<le> 255 \<Longrightarrow> unat (word_of_int (int (length p)) :: byte) = length p"
  by (simp add: unat_of_nat)

lemma REQUEST_parse_built:
  assumes "map_of COMMANDS command = Some opc" "0 \<le> address" "address < 65536"
    "length payload \<le> 255" "\<forall>x\<in>set payload. 0 \<le> x \<and> x < 256"
  shows "parse_struct REQUEST (request_body opc address payload
           @ [word_of_int (uint crc div 256), word_of_int (uint (crc :: 16 word) mod 256)]) =
         Inr [(str ''start_byte'', PInt 0x2f), (str ''command'', PStr command),
              (str ''address'', PInt address), (str ''payload'', PList (map PInt payload)),
              (str ''crc'', PInt (uint crc))]"
proof -
  let ?rest = "map word_of_int payload @ [word_of_int (uint crc div 256), word_of_int (uint crc mod 256)] :: byte list"
  have n: "unat (word_of_int (int (length payload)) :: byte) = length payload"
    using assms(4) by (rule unat_length_byte)
  have opc: "0 \<le> opc \<and> opc < 256"
    using assms(1) by (rule COMMANDS_range)
  have frame: "request_body opc address payload
           @ [word_of_int (uint crc div 256), word_of_int (uint crc mod 256)]
      = 0x2f # word_of_int opc # word_of_int (address div 256) # word_of_int (address mod 256)
          # word_of_int (int (length payload)) # ?rest"
    by (simp add: request_body_def)
  have r0: "?rest ! length payload = word_of_int (uint crc div 256)"
    by (simp add: nth_append)
  have r1: "?rest ! (length payload + 1) = word_of_int (uint crc mod 256)"
    by (simp add: nth_append)
  have crc: "uint (word_of_int (uint crc div 256) :: byte) * 256
      + uint (word_of_int (uint crc mod 256) :: byte) = uint crc"
    using uint_crc_range [of crc] by (simp add: uint_hi_lo)
  have cmd: "enum_decode COMMANDS (uint (word_of_int opc :: byte)) = PStr command"
    using opc assms(1) by (simp add: uint_byte enum_decode_COMMANDS)
  have addr: "uint (word_of_int (address div 256) :: byte) * 256
      + uint (word_of_int (address mod 256) :: byte) = address"
    using assms(2,3) by (rule uint_hi_lo)
  have pl: "map (\<lambda>b. PInt (uint b)) (take (length payload) ?rest) = map PInt payload"
  proof -
    have "take (length payload) ?rest = (map word_of_int payload :: byte list)"
      by simp
    then show ?thesis
      using map_uint_word_of_int [OF assms(5)] by (simp only:)
  qed
  show ?thesis
    unfolding parse_struct_def frame REQUEST_parse_Cons n r0 r1 crc cmd addr pl
    by simp
qed

text \<open>
  C1 (as amended). For every known command name, every address in [0, 65536) and every
  payload of at most 255 byte values, \<open>build\<close> returns a frame that \<open>parse\<close> rejects
  with a Decoding error, because \<open>parse\<close> reads the response layout, whose start
  marker is 0x2E and which has an ack byte. Read with the request layout that built it,
  the frame gives back the command, the address and the payload, and its CRC field is
  the CRC16/XMODEM of the bytes before it.
\<close>

theorem build_then_parse:
  assumes "command \<in> fst ` set COMMANDS" "0 \<le> address" "address < 65536"
    "length payload \<le> 255" "\<forall>x\<in>set payload. 0 \<le> x \<and> x < 256"
  shows "\<exists>frame. build (PStr command) address payload = Inr frame
           \<and> parse frame = Inl (BLHeliDecodingError (UnparsableFrame ConstError))
           \<and> parse_struct REQUEST frame =
               Inr [(str ''start_byte'', PInt 0x2f), (str ''command'', PStr command),
                    (str ''address'', PInt address),
                    (str ''payload'', PList (map PInt payload)),
                    (str ''crc'', PInt (uint (CRC16_XMODEM (drop_last2 frame))))]"
proof -
  from assms(1) obtain opc where opc: "map_of COMMANDS command = Some opc"
    by (metis map_of_eq_None_iff not_Some_eq)
  let ?body = "request_body opc address payload"
  let ?frame = "?body @ [word_of_int (uint (CRC16_XMODEM ?body) div 256),
                         word_of_int (uint (CRC16_XMODEM ?body) mod 256)]"
  have b: "build (PStr command) address payload = Inr ?frame"
    using opc assms(2-5) by (simp add: build_eq)
  have "?frame \<noteq> []" "?frame ! 0 \<noteq> 0x2e"
    by (simp_all add: request_body_def)
  then have p: "parse ?frame = Inl (BLHeliDecodingError (UnparsableFrame ConstError))"
    by (simp add: parse_eq)
  have r: "parse_struct REQUEST ?frame =
      Inr [(str ''start_byte'', PInt 0x2f), (str ''command'', PStr command),
           (str ''address'', PInt address), (str ''payload'', PList (map PInt payload)),
           (str ''crc'', PInt (uint (CRC16_XMODEM (drop_last2 ?frame))))]"
    unfolding drop_last2_append2
    using opc assms(2-5) by (rule REQUEST_parse_built)
  from b p r show ?thesis
    by blast
qed

theorem build_then_parse_witness:
  "str ''device_read'' \<in> fst ` set COMMANDS
   \<and> (\<exists>frame. build (PStr (str ''device_read'')) 0xaabb [15] = Inr frame
           \<and> parse frame = Inl (BLHeliDecodingError (UnparsableFrame ConstError))
           \<and> parse_struct REQUEST frame =
               Inr [(str ''start_byte'', PInt 0x2f), (str ''command'', PStr (str ''device_read'')),
                    (str ''address'', PInt 0xaabb),
                    (str ''payload'', PList (map PInt [15])),
                    (str ''crc'', PInt (uint (CRC16_XMODEM (drop_last2 frame))))])"
proof -
  have 1: "str ''device_read'' \<in> fst ` set COMMANDS"
    by (simp add: COMMANDS_def)
  have 2: "(0::int) \<le> 0xaabb" "(0xaabb::int) < 65536" "length [15::int] \<le> 255"
    "\<forall>x\<in>set [15::int]. 0 \<le> x \<and> x < 256"
    by simp_all
  show ?thesis
    using 1 build_then_parse [OF 1 2] by blast
qed

text \<open>
  The claim as stated fails on every input: the frame built for \<open>device_erase_all\<close>
  is not parsed into a frame at all.
\<close>

theorem build_then_parse_counterexample:
  "build (PStr (str ''device_erase_all'')) 0 [0] = Inr [0x2f, 0x38, 0x00, 0x00, 0x01, 0x00, 0xcd, 0xf9]
   \<and> parse [0x2f, 0x38, 0x00, 0x00, 0x01, 0x00, 0xcd, 0xf9]
       = Inl (BLHeliDecodingError (UnparsableFrame ConstError))"
  by (simp add: build_eq COMMANDS_def str_def request_body_def crc_eval parse_eq)

subsection \<open>The payload shapes\<close>

lemma int_bytes_uint: "int_bytes (map (\<lambda>b. PInt (uint b)) (p :: byte list)) = Inr p"
proof (induction p)
  case Nil
  show ?case by simp
next
  case (Cons b p)
  have "uint b < 256" using uint_lt2p [of b] by simp
  with Cons show ?case by simp
qed

lemma to_bytes_payload: "to_bytes (PList (map (\<lambda>b. PInt (uint b)) (p :: byte list))) = Inr p"
  by (simp add: int_bytes_uint)

lemma parse_shape_one_byte:
  "parse_shape (Struct [(Some field, Int8ul)]) p =
    (if p = [] then Inl StreamError else Inr (Parsed [(field, PInt (uint (p ! 0)))]))"
  by (cases p) (simp_all add: parse_shape_def parse_struct_def stream_read_def)

lemma parse_shape_array:
  "parse_shape (Bare (PrefixedArray Int8ul Byte)) p =
    (if p = [] \<or> length p < 1 + unat (p ! 0) then Inl StreamError
     else Inr (ParsedValue (PList (map (\<lambda>b. PInt (uint b)) (take (unat (p ! 0)) (tl p))))))"
  by (cases p) (simp_all add: parse_shape_def parse_PrefixedArray_Nil parse_PrefixedArray_Cons
      del: parse_con.simps)

lemma parse_shape_init_flash:
  "parse_shape (Struct [(Some (str ''HiSign''), Byte), (Some (str ''LoSign''), Byte),
              (Some (str ''BootMsg''), Byte), (Some (str ''mode''), Enum Byte MODES)]) p =
    (if length p < 4 then Inl StreamError
     else Inr (Parsed [(str ''HiSign'', PInt (uint (p ! 0))), (str ''LoSign'', PInt (uint (p ! 1))),
                       (str ''BootMsg'', PInt (uint (p ! 2))),
                       (str ''mode'', enum_decode MODES (uint (p ! 3)))]))"
proof -
  have names: "str ''LoSign'' \<noteq> str ''HiSign''" "str ''BootMsg'' \<noteq> str ''HiSign''"
    "str ''mode'' \<noteq> str ''HiSign''" "str ''BootMsg'' \<noteq> str ''LoSign''"
    "str ''mode'' \<noteq> str ''LoSign''" "str ''mode'' \<noteq> str ''BootMsg''"
    by (simp_all add: str_def)
  consider "p = []" | a where "p = [a]" | a b where "p = [a, b]" | a b c where "p = [a, b, c]"
    | a b c d r where "p = a # b # c # d # r"
    by (cases p; cases "tl p"; cases "tl (tl p)"; cases "tl (tl (tl p))") auto
  then show ?thesis
    by cases (simp_all add: parse_shape_def parse_struct_def parse_con_bytes names names [symmetric]
        del: parse_con.simps)
qed

lemma parse_payload_eq:
  assumes "getattr frame (str ''payload'') = Inr (PList (map (\<lambda>b. PInt (uint b)) p))"
    and "getattr frame (str ''start_byte'') = Inr (PInt sb)"
    and "getattr frame (str ''command'') = Inr cmd"
  shows "parse_payload frame =
    (case cmd of
       PStr name \<Rightarrow>
        (case map_of (if sb = 0x2f then REQUEST_PAYLOAD else RESPONSE_PAYLOAD) name of
           Some sh \<Rightarrow>
             (case parse_shape sh p of
                Inl e \<Rightarrow> Inl (BLHeliDecodingError (UnparsablePayload e))
              | Inr v \<Rightarrow> Inr v)
         | None \<Rightarrow> Inr (RawBytes p))
     | PList xs \<Rightarrow> Inl (Raised TypeError)
     | _ \<Rightarrow> Inr (RawBytes p))"
  using assms
  by (simp add: parse_payload_def int_bytes_uint REQUEST_START_BYTE_def Let_def
      split: pyval.splits)

text \<open>
  C6 (as amended). For a frame with start byte \<open>sb\<close>, command \<open>cmd\<close> and payload bytes
  \<open>p\<close>, \<open>parse_payload\<close> returns the raw payload bytes unchanged when the command is a
  bare integer or a name with no shape in the table that the start byte selects (the
  request table for 0x2F, the response table otherwise). When a shape is registered it
  decodes a prefix of the payload and ignores the bytes left over, and it raises a
  Decoding error exactly when the payload is too short for the shape: fewer than 4 bytes
  for the identification payload of \<open>device_init_flash\<close>, no byte for a one-byte shape,
  fewer bytes than the first byte announces for a length-prefixed block; a mode byte
  outside the enumeration is returned as an integer. The payload of the parsed frame
  2E37000004F330AA0100F7F0 decodes with mode \<open>SiLabsBLB\<close>.
\<close>

theorem parse_payload_shapes:
  assumes "getattr frame (str ''payload'') = Inr (PList (map (\<lambda>b. PInt (uint b)) p))"
    and "getattr frame (str ''start_byte'') = Inr (PInt sb)"
    and "getattr frame (str ''command'') = Inr cmd"
  shows
    "(cmd = PInt i \<longrightarrow> parse_payload frame = Inr (RawBytes p))
   \<and> (sb \<noteq> 0x2f \<and> cmd = PStr name \<and> name \<noteq> str ''device_init_flash'' \<longrightarrow>
        parse_payload frame = Inr (RawBytes p))
   \<and> (sb \<noteq> 0x2f \<and> cmd = PStr (str ''device_init_flash'') \<longrightarrow>
        parse_payload frame =
          (if length p < 4 then Inl (BLHeliDecodingError (UnparsablePayload StreamError))
           else Inr (Parsed [(str ''HiSign'', PInt (uint (p ! 0))),
                             (str ''LoSign'', PInt (uint (p ! 1))),
                             (str ''BootMsg'', PInt (uint (p ! 2))),
                             (str ''mode'', enum_decode MODES (uint (p ! 3)))])))
   \<and> (sb = 0x2f \<and> cmd = PStr name \<and> name \<notin> fst ` set REQUEST_PAYLOAD \<longrightarrow>
        parse_payload frame = Inr (RawBytes p))
   \<and> (sb = 0x2f \<and> cmd = PStr name
        \<and> map_of REQUEST_PAYLOAD name = Some (Struct [(Some field, Int8ul)]) \<longrightarrow>
        parse_payload frame =
          (if p = [] then Inl (BLHeliDecodingError (UnparsablePayload StreamError))
           else Inr (Parsed [(field, PInt (uint (p ! 0)))])))
   \<and> (sb = 0x2f \<and> cmd = PStr name
        \<and> map_of REQUEST_PAYLOAD name = Some (Bare (PrefixedArray Int8ul Byte)) \<longrightarrow>
        parse_payload frame =
          (if p = [] \<or> length p < 1 + unat (p ! 0)
           then Inl (BLHeliDecodingError (UnparsablePayload StreamError))
           else Inr (ParsedValue
                  (PList (map (\<lambda>b. PInt (uint b)) (take (unat (p ! 0)) (tl p)))))))
   \<and> (\<exists>f c. parse [0x2E, 0x37, 0x00, 0x00, 0x04, 0xF3, 0x30, 0xAA, 0x01, 0x00, 0xF7, 0xF0] = Inr f
          \<and> parse_payload f = Inr (Parsed c)
          \<and> getattr c (str ''mode'') = Inr (PStr (str ''SiLabsBLB'')))"
proof -
  note eq = parse_payload_eq [OF assms]
  have 1: "cmd = PInt i \<longrightarrow> parse_payload frame = Inr (RawBytes p)"
    by (simp add: eq)
  have 2: "sb \<noteq> 0x2f \<and> cmd = PStr name \<and> name \<noteq> str ''device_init_flash'' \<longrightarrow>
        parse_payload frame = Inr (RawBytes p)"
    by (simp add: eq RESPONSE_PAYLOAD_def)
  have 3: "sb \<noteq> 0x2f \<and> cmd = PStr (str ''device_init_flash'') \<longrightarrow>
        parse_payload frame =
          (if length p < 4 then Inl (BLHeliDecodingError (UnparsablePayload StreamError))
           else Inr (Parsed [(str ''HiSign'', PInt (uint (p ! 0))),
                             (str ''LoSign'', PInt (uint (p ! 1))),
                             (str ''BootMsg'', PInt (uint (p ! 2))),
                             (str ''mode'', enum_decode MODES (uint (p ! 3)))]))"
    by (simp add: eq RESPONSE_PAYLOAD_def parse_shape_init_flash)
  have 4: "sb = 0x2f \<and> cmd = PStr name \<and> name \<notin> fst ` set REQUEST_PAYLOAD \<longrightarrow>
        parse_payload frame = Inr (RawBytes p)"
  proof (intro impI)
    assume a: "sb = 0x2f \<and> cmd = PStr name \<and> name \<notin> fst ` set REQUEST_PAYLOAD"
    then have "map_of REQUEST_PAYLOAD name = None"
      by (simp add: map_of_eq_None_iff)
    with a show "parse_payload frame = Inr (RawBytes p)"
      by (simp add: eq)
  qed
  have 5: "sb = 0x2f \<and> cmd = PStr name
        \<and> map_of REQUEST_PAYLOAD name = Some (Struct [(Some field, Int8ul)]) \<longrightarrow>
        parse_payload frame =
          (if p = [] then Inl (BLHeliDecodingError (UnparsablePayload StreamError))
           else Inr (Parsed [(field, PInt (uint (p ! 0)))]))"
    by (simp add: eq parse_shape_one_byte)
  have 6: "sb = 0x2f \<and> cmd = PStr name
        \<and> map_of REQUEST_PAYLOAD name = Some (Bare (PrefixedArray Int8ul Byte)) \<longrightarrow>
        parse_payload frame =
          (if p = [] \<or> length p < 1 + unat (p ! 0)
           then Inl (BLHeliDecodingError (UnparsablePayload StreamError))
           else Inr (ParsedValue
                  (PList (map (\<lambda>b. PInt (uint b)) (take (unat (p ! 0)) (tl p))))))"
    by (simp add: eq parse_shape_array)
  let ?bs = "[0x2E, 0x37, 0x00, 0x00, 0x04, 0xF3, 0x30, 0xAA, 0x01, 0x00, 0xF7, 0xF0] :: byte list"
  let ?c = "[(str ''HiSign'', PInt 0xF3), (str ''LoSign'', PInt 0x30),
             (str ''BootMsg'', PInt 0xAA), (str ''mode'', PStr (str ''SiLabsBLB''))]"
  have p: "parse ?bs = Inr (response_frame_of ?bs)"
    by (simp add: parse_eq crc_eval)
  have "parse_payload (response_frame_of ?bs) =
      (case enum_decode COMMANDS (uint (?bs ! 1)) of
       PStr name \<Rightarrow>
        (case map_of (if (0x2e::int) = 0x2f then REQUEST_PAYLOAD else RESPONSE_PAYLOAD) name of
           Some sh \<Rightarrow>
             (case parse_shape sh (take (unat (?bs ! 4)) (drop 5 ?bs)) of
                Inl e \<Rightarrow> Inl (BLHeliDecodingError (UnparsablePayload e))
              | Inr v \<Rightarrow> Inr v)
         | None \<Rightarrow> Inr (RawBytes (take (unat (?bs ! 4)) (drop 5 ?bs))))
     | PList xs \<Rightarrow> Inl (Raised TypeError)
     | _ \<Rightarrow> Inr (RawBytes (take (unat (?bs ! 4)) (drop 5 ?bs))))"
    by (rule parse_payload_eq) (rule getattr_response_frame_of)+
  also have "\<dots> = Inr (Parsed ?c)"
    by (simp add: enum_decode_def COMMANDS_def RESPONSE_PAYLOAD_def parse_shape_init_flash)
      (simp add: MODES_def)
  finally have pp: "parse_payload (response_frame_of ?bs) = Inr (Parsed ?c)" .
  have g: "getattr ?c (str ''mode'') = Inr (PStr (str ''SiLabsBLB''))"
    by (simp add: getattr_def str_def)
  from p pp g have 7: "\<exists>f c. parse ?bs = Inr f \<and> parse_payload f = Inr (Parsed c)
          \<and> getattr c (str ''mode'') = Inr (PStr (str ''SiLabsBLB''))"
    by blast
  from 1 2 3 4 5 6 7 show ?thesis
    by blast
qed

lemma getattr_frame_object:
  "getattr (frame_object sb cmd p) (str ''payload'') = Inr (PList (map (\<lambda>b. PInt (uint b)) p))"
  "getattr (frame_object sb cmd p) (str ''start_byte'') = Inr (PInt sb)"
  "getattr (frame_object sb cmd p) (str ''command'') = Inr cmd"
  by (simp_all add: frame_object_def getattr_def str_def)

theorem parse_payload_shapes_witness:
  "parse_payload (frame_object 0x2e (PInt 0x36) [1, 2]) = Inr (RawBytes [1, 2])
   \<and> parse_payload (frame_object 0x2e (PStr (str ''device_read'')) [1, 2]) = Inr (RawBytes [1, 2])
   \<and> parse_payload (frame_object 0x2e (PStr (str ''device_init_flash'')) [0xF3, 0x30, 0xAA, 0x07, 0x55])
       = Inr (Parsed [(str ''HiSign'', PInt 0xF3), (str ''LoSign'', PInt 0x30),
                      (str ''BootMsg'', PInt 0xAA), (str ''mode'', PInt 0x07)])
   \<and> parse_payload (frame_object 0x2e (PStr (str ''device_init_flash'')) [0xF3, 0x30, 0xAA])
       = Inl (BLHeliDecodingError (UnparsablePayload StreamError))
   \<and> parse_payload (frame_object 0x2f (PStr (str ''device_init_flash'')) [1, 2]) = Inr (RawBytes [1, 2])
   \<and> parse_payload (frame_object 0x2f (PStr (str ''device_reset'')) [3, 9])
       = Inr (Parsed [(str ''esc_channel'', PInt 3)])
   \<and> parse_payload (frame_object 0x2f (PStr (str ''device_write'')) [2, 7, 8, 9])
       = Inr (ParsedValue (PList [PInt 7, PInt 8]))"
proof -
  have a: "str ''device_read'' \<noteq> str ''device_init_flash''"
    by (simp add: str_def)
  have b: "str ''device_init_flash'' \<notin> fst ` set REQUEST_PAYLOAD"
    by (simp add: REQUEST_PAYLOAD_def str_def)
  have c: "map_of REQUEST_PAYLOAD (str ''device_reset'') = Some (Struct [(Some (str ''esc_channel''), Int8ul)])"
    by (simp add: REQUEST_PAYLOAD_def)
  have d: "map_of REQUEST_PAYLOAD (str ''device_write'') = Some (Bare (PrefixedArray Int8ul Byte))"
    by (simp add: REQUEST_PAYLOAD_def str_def)
  have e: "enum_decode MODES 7 = PInt 7"
    by (simp add: enum_decode_def MODES_def)
  show ?thesis
    using
      parse_payload_shapes [OF getattr_frame_object, where sb = "0x2e" and cmd = "PInt 0x36"
        and p = "[1, 2]" and i = "0x36" and name = "[]" and field = "[]"]
      parse_payload_shapes [OF getattr_frame_object, where sb = "0x2e"
        and cmd = "PStr (str ''device_read'')"
        and p = "[1, 2]" and i = 0 and name = "str ''device_read''" and field = "[]"]
      parse_payload_shapes [OF getattr_frame_object, where sb = "0x2e"
        and cmd = "PStr (str ''device_init_flash'')"
        and p = "[0xF3, 0x30, 0xAA, 0x07, 0x55]" and i = 0 and name = "[]" and field = "[]"]
      parse_payload_shapes [OF getattr_frame_object, where sb = "0x2e"
        and cmd = "PStr (str ''device_init_flash'')"
        and p = "[0xF3, 0x30, 0xAA]" and i = 0 and name = "[]" and field = "[]"]
      parse_payload_shapes [OF getattr_frame_object, where sb = "0x2f"
        and cmd = "PStr (str ''device_init_flash'')"
        and p = "[1, 2]" and i = 0 and name = "str ''device_init_flash''" and field = "[]"]
      parse_payload_shapes [OF getattr_frame_object, where sb = "0x2f"
        and cmd = "PStr (str ''device_reset'')"
        and p = "[3, 9]" and i = 0 and name = "str ''device_reset''"
        and field = "str ''esc_channel''"]
      parse_payload_shapes [OF getattr_frame_object, where sb = "0x2f"
        and cmd = "PStr (str ''device_write'')"
        and p = "[2, 7, 8, 9]" and i = 0 and name = "str ''device_write''" and field = "[]"]
      a b c d e
    by simp
qed

text \<open>
  The claim as stated fails: the identification shape takes four bytes, the payload of
  the valid frame 2E37000005F330AA010000D799 has five, and \<open>parse_payload\<close> decodes it
  without an error, the fifth byte dropped.
\<close>

theorem parse_payload_leftover_counterexample:
  "\<exists>f. parse [0x2E, 0x37, 0x00, 0x00, 0x05, 0xF3, 0x30, 0xAA, 0x01, 0x00, 0x00, 0xD7, 0x99] = Inr f
     \<and> getattr f (str ''payload'') = Inr (PList [PInt 0xF3, PInt 0x30, PInt 0xAA, PInt 0x01, PInt 0x00])
     \<and> parse_payload f =
         Inr (Parsed [(str ''HiSign'', PInt 0xF3), (str ''LoSign'', PInt 0x30),
                      (str ''BootMsg'', PInt 0xAA), (str ''mode'', PStr (str ''SiLabsBLB''))])"
proof -
  let ?bs = "[0x2E, 0x37, 0x00, 0x00, 0x05, 0xF3, 0x30, 0xAA, 0x01, 0x00, 0x00, 0xD7, 0x99] :: byte list"
  have p: "parse ?bs = Inr (response_frame_of ?bs)"
    by (simp add: parse_eq crc_eval)
  have g: "getattr (response_frame_of ?bs) (str ''payload'')
      = Inr (PList [PInt 0xF3, PInt 0x30, PInt 0xAA, PInt 0x01, PInt 0x00])"
    unfolding getattr_response_frame_of by simp
  have "parse_payload (response_frame_of ?bs) =
      (case enum_decode COMMANDS (uint (?bs ! 1)) of
       PStr name \<Rightarrow>
        (case map_of (if (0x2e::int) = 0x2f then REQUEST_PAYLOAD else RESPONSE_PAYLOAD) name of
           Some sh \<Rightarrow>
             (case parse_shape sh (take (unat (?bs ! 4)) (drop 5 ?bs)) of
                Inl e \<Rightarrow> Inl (BLHeliDecodingError (UnparsablePayload e))
              | Inr v \<Rightarrow> Inr v)
         | None \<Rightarrow> Inr (RawBytes (take (unat (?bs ! 4)) (drop 5 ?bs))))
     | PList xs \<Rightarrow> Inl (Raised TypeError)
     | _ \<Rightarrow> Inr (RawBytes (take (unat (?bs ! 4)) (drop 5 ?bs))))"
    by (rule parse_payload_eq) (rule getattr_response_frame_of)+
  also have "\<dots> = Inr (Parsed [(str ''HiSign'', PInt 0xF3), (str ''LoSign'', PInt 0x30),
                      (str ''BootMsg'', PInt 0xAA), (str ''mode'', PStr (str ''SiLabsBLB''))])"
    by (simp add: enum_decode_def COMMANDS_def RESPONSE_PAYLOAD_def parse_shape_init_flash)
      (simp add: MODES_def)
  finally show ?thesis
    using p g by blast
qed

section \<open>Verification: the configuration image\<close>

subsection \<open>Reading the constructs at an offset of the image\<close>

lemma drop_nth_Cons: "k < length bs \<Longrightarrow> drop k bs = bs ! k # drop (k + 1) bs"
  by (simp add: Cons_nth_drop_Suc)

lemma at_Byte:
  "k < length bs \<Longrightarrow> parse_con Byte (drop k bs) = Inr (PInt (uint (bs ! k)), drop (k + 1) bs)"
  by (subst drop_nth_Cons) (simp_all add: parse_Byte_Cons del: parse_con.simps)

lemma at_Enum_Byte:
  "k < length bs \<Longrightarrow>
   parse_con (Enum Byte m) (drop k bs) = Inr (enum_decode m (uint (bs ! k)), drop (k + 1) bs)"
  by (subst drop_nth_Cons) (simp_all add: parse_Enum_Byte_Cons del: parse_con.simps)

lemma at_Enum_Int16ub:
  "k + 1 < length bs \<Longrightarrow>
   parse_con (Enum Int16ub m) (drop k bs) =
     Inr (enum_decode m (uint (bs ! k) * 256 + uint (bs ! (k + 1))), drop (k + 2) bs)"
proof -
  assume a: "k + 1 < length bs"
  then have "drop k bs = bs ! k # bs ! (k + 1) # drop (k + 2) bs"
    by (simp add: Cons_nth_drop_Suc)
  then show ?thesis
    by (simp add: stream_read_def)
qed

lemma at_Flag:
  "k < length bs \<Longrightarrow>
   parse_con Flag (drop k bs) = Inr (PBool (bs ! k \<noteq> 0), drop (k + 1) bs)"
  by (subst drop_nth_Cons) (simp_all add: stream_read_def)

lemma at_Padding:
  "k + n \<le> length bs \<Longrightarrow> parse_con (Padding n pat) (drop k bs) = Inr (PNone, drop (k + n) bs)"
  by (simp add: stream_read_def add.commute)

lemma at_PaddedString:
  "k + 16 \<le> length bs \<Longrightarrow>
   parse_con (PaddedString 16) (drop k bs) =
     (case text_at k bs of
        None \<Rightarrow> Inl StringError
      | Some s \<Rightarrow> Inr (PStr s, drop (k + 16) bs))"
  by (auto simp: stream_read_def text_at_def add.commute)

lemmas at_con = at_Byte at_Enum_Byte at_Enum_Int16ub at_Flag at_Padding at_PaddedString

lemma at_Byte0:
  "64 \<le> length bs \<Longrightarrow> parse_con Byte bs = Inr (PInt (uint (bs ! 0)), drop 1 bs)"
  by (cases bs) (simp_all add: parse_Byte_Cons del: parse_con.simps)

lemma parse_fields_append:
  "parse_fields (xs @ ys) obj bs =
    (case parse_fields xs obj bs of
       Inl e \<Rightarrow> Inl e
     | Inr (obj', rest) \<Rightarrow> parse_fields ys obj' rest)"
  by (induction xs arbitrary: obj bs) (auto split: sum.splits option.splits)

lemma EEPROM_parse_head:
  assumes "64 \<le> length bs"
  shows "parse_fields (take 29 EEPROM_LAYOUT) [] bs =
    Inr (take 19 (eeprom_of bs layout mcu name), drop 64 bs)"
  unfolding EEPROM_LAYOUT_def eeprom_of_def
  using assms
  by (simp add: at_con at_Byte0 str_def del: parse_con.simps) (simp add: numeral_2_eq_2)

lemma EEPROM_parse_texts:
  assumes "112 \<le> length bs"
  shows "parse_fields (drop 29 EEPROM_LAYOUT) (take 19 (eeprom_of bs l m n)) (drop 64 bs) =
    (case text_at 0x40 bs of
       None \<Rightarrow> Inl StringError
     | Some layout \<Rightarrow>
        (case text_at 0x50 bs of
           None \<Rightarrow> Inl StringError
         | Some mcu \<Rightarrow>
            (case text_at 0x60 bs of
               None \<Rightarrow> Inl StringError
             | Some name \<Rightarrow> Inr (eeprom_of bs layout mcu name, drop 112 bs))))"
  unfolding EEPROM_LAYOUT_def eeprom_of_def
  using assms
  by (cases "text_at 0x40 bs"; cases "text_at 0x50 bs"; cases "text_at 0x60 bs")
    (simp_all add: at_con str_def del: parse_con.simps)

lemma EEPROM_parse:
  assumes "112 \<le> length bs"
  shows "parse_struct EEPROM_LAYOUT bs =
    (case text_at 0x40 bs of
       None \<Rightarrow> Inl StringError
     | Some layout \<Rightarrow>
        (case text_at 0x50 bs of
           None \<Rightarrow> Inl StringError
         | Some mcu \<Rightarrow>
            (case text_at 0x60 bs of
               None \<Rightarrow> Inl StringError
             | Some name \<Rightarrow> Inr (eeprom_of bs layout mcu name))))"
proof -
  have len: "64 \<le> length bs"
    using assms by simp
  have "parse_fields EEPROM_LAYOUT [] bs =
      parse_fields (take 29 EEPROM_LAYOUT @ drop 29 EEPROM_LAYOUT) [] bs"
    by simp
  also have "\<dots> = parse_fields (drop 29 EEPROM_LAYOUT) (take 19 (eeprom_of bs [] [] [])) (drop 64 bs)"
    unfolding parse_fields_append EEPROM_parse_head [OF len, of "[]" "[]" "[]"] by simp
  finally show ?thesis
    unfolding parse_struct_def EEPROM_parse_texts [OF assms]
    by (simp split: option.splits)
qed


lemma stream_read_consumes:
  "stream_read k bs = Inr (d, rest) \<Longrightarrow> length bs = k + length rest"
proof -
  assume "stream_read k bs = Inr (d, rest)"
  then have "\<not> length bs < k" "rest = drop k bs"
    by (simp_all add: stream_read_def split: if_splits)
  then show ?thesis by simp
qed

lemma parse_con_consumes:
  "sizeof_con c = Inr n \<Longrightarrow> parse_con c bs = Inr (v, rest) \<Longrightarrow> length bs = n + length rest"
proof (induction c arbitrary: n v)
  case Byte
  then show ?case by (auto dest: stream_read_consumes split: sum.splits)
next
  case Int8ul
  then show ?case by (auto dest: stream_read_consumes split: sum.splits)
next
  case Int16ub
  then show ?case by (auto dest: stream_read_consumes split: sum.splits)
next
  case Flag
  then show ?case by (auto dest: stream_read_consumes split: sum.splits)
next
  case (Enum c m)
  then show ?case by (auto split: sum.splits option.splits)
next
  case (Const x c)
  then show ?case by (auto split: sum.splits if_splits)
next
  case (Default c x)
  then show ?case by auto
next
  case (PrefixedArray c1 c2)
  then show ?case by simp
next
  case (Padding k pat)
  then show ?case by (auto dest: stream_read_consumes split: sum.splits)
next
  case (PaddedString k)
  then show ?case by (auto dest: stream_read_consumes split: sum.splits option.splits)
qed

lemma parse_fields_consumes:
  "sizeof scs = Inr n \<Longrightarrow> parse_fields scs obj bs = Inr (c, rest) \<Longrightarrow>
   length bs = n + length rest"
proof (induction scs arbitrary: n obj bs)
  case Nil
  then show ?case by simp
next
  case (Cons a scs)
  obtain name sc where a: "a = (name, sc)" by (cases a)
  from Cons.prems(1) a obtain k m where k: "sizeof_con sc = Inr k" and m: "sizeof scs = Inr m"
    and n: "n = k + m"
    by (auto split: sum.splits)
  from Cons.prems(2) a obtain v r where v: "parse_con sc bs = Inr (v, r)"
    and r: "parse_fields scs (case name of None \<Rightarrow> obj | Some x \<Rightarrow> setitem obj x v) r = Inr (c, rest)"
    by (auto split: sum.splits)
  from parse_con_consumes [OF k v] Cons.IH [OF m r] n show ?case
    by simp
qed

lemma parse_con_StreamError:
  "reads_any sc \<Longrightarrow> parse_con sc bs = Inl e \<Longrightarrow> e = StreamError"
  by (cases sc) (auto simp: stream_read_def split: if_splits sum.splits option.splits)

lemma parse_fields_StreamError:
  "\<forall>x\<in>set scs. reads_any (snd x) \<Longrightarrow> parse_fields scs obj bs = Inl e \<Longrightarrow> e = StreamError"
proof (induction scs arbitrary: obj bs)
  case Nil
  then show ?case by simp
next
  case (Cons a scs)
  obtain name sc where a: "a = (name, sc)" by (cases a)
  show ?case
  proof (cases "parse_con sc bs")
    case (Inl e')
    with Cons.prems a show ?thesis
      by (auto dest: parse_con_StreamError simp del: parse_con.simps)
  next
    case (Inr x)
    obtain v r where "x = (v, r)" by (cases x)
    with Inr Cons.prems a Cons.IH [of "case name of None \<Rightarrow> obj | Some n \<Rightarrow> setitem obj n v" r]
    show ?thesis
      by (simp del: parse_con.simps)
  qed
qed

lemma sizeof_EEPROM_head: "sizeof (take 29 EEPROM_LAYOUT) = Inr 64"
  by (simp add: EEPROM_LAYOUT_def)

lemma EEPROM_head_short:
  assumes "length bs < 64"
  shows "parse_fields (take 29 EEPROM_LAYOUT) obj bs = Inl StreamError"
proof (cases "parse_fields (take 29 EEPROM_LAYOUT) obj bs")
  case (Inl e)
  have "\<forall>x\<in>set (take 29 EEPROM_LAYOUT). reads_any (snd x)"
    by (simp add: EEPROM_LAYOUT_def)
  from parse_fields_StreamError [OF this Inl] Inl show ?thesis
    by simp
next
  case (Inr x)
  obtain c rest where "x = (c, rest)" by (cases x)
  with Inr parse_fields_consumes [OF sizeof_EEPROM_head, of obj bs c rest] assms
  show ?thesis by simp
qed

lemma at_PaddedString_any:
  "parse_con (PaddedString 16) (drop k bs) =
    (if length bs < k + 16 then Inl StreamError
     else case text_at k bs of
            None \<Rightarrow> Inl StringError
          | Some s \<Rightarrow> Inr (PStr s, drop (k + 16) bs))"
  by (auto simp: stream_read_def text_at_def add.commute)

lemma EEPROM_texts_any:
  "parse_fields (drop 29 EEPROM_LAYOUT) (take 19 (eeprom_of bs l m n)) (drop 64 bs) =
    (if length bs < 80 then Inl StreamError
     else case text_at 0x40 bs of
       None \<Rightarrow> Inl StringError
     | Some layout \<Rightarrow>
        if length bs < 96 then Inl StreamError
        else case text_at 0x50 bs of
           None \<Rightarrow> Inl StringError
         | Some mcu \<Rightarrow>
            if length bs < 112 then Inl StreamError
            else case text_at 0x60 bs of
               None \<Rightarrow> Inl StringError
             | Some name \<Rightarrow> Inr (eeprom_of bs layout mcu name, drop 112 bs))"
  unfolding EEPROM_LAYOUT_def eeprom_of_def
  by (cases "text_at 0x40 bs"; cases "text_at 0x50 bs"; cases "text_at 0x60 bs")
    (simp_all add: at_PaddedString_any str_def del: parse_con.simps)

subsection \<open>The claim on decoding an image\<close>

lemma rstrip_null_zeros: "rstrip_null (replicate n 0) = []"
  by (simp add: rstrip_null_def dropWhile_replicate)

lemma rstrip_null_last:
  assumes "x \<noteq> 0"
  shows "rstrip_null (x # replicate n 0) = [x]"
proof -
  have "dropWhile (\<lambda>b. b = 0) (replicate n 0 @ [x]) = dropWhile (\<lambda>b. b = 0) [x]"
    by (rule dropWhile_append2) simp
  with assms show ?thesis
    by (simp add: rstrip_null_def)
qed

lemma utf8_decode_Nil: "utf8_decode [] = Some []"
  by (simp add: utf8_decode.simps)

lemma utf8_decode_FF: "utf8_decode [0xff] = None"
  by (simp add: utf8_decode.simps)

lemma text_at_zeros: "k + 16 \<le> n \<Longrightarrow> text_at k (replicate n 0) = Some []"
  by (simp add: text_at_def rstrip_null_zeros utf8_decode_Nil min_def)

lemma text_at_head_zeros:
  "k + 16 \<le> n \<Longrightarrow> text_at k (replicate n 0 @ bs) = Some []"
  by (simp add: text_at_def rstrip_null_zeros utf8_decode_Nil min_def)

lemma text_at_FF: "15 \<le> n \<Longrightarrow> text_at k (replicate k 0 @ [0xff] @ replicate n 0) = None"
  by (simp add: text_at_def min_def rstrip_null_last utf8_decode_FF)

text \<open>
  C5 (as amended). Decoding a configuration image (\<open>EEPROM_LAYOUT.parse\<close>) reads the
  input from its start and fails on every input of fewer than 112 bytes; an input of
  112 bytes or more is decoded from its first 112 bytes and the rest is ignored. The
  three text fields are decoded in order as far as the input holds them whole (80, 96
  and 112 bytes), and the first one that, its trailing zero bytes stripped, is not UTF-8
  makes decoding fail with the library's \<open>StringError\<close>; an input that is too short
  and has no such text field before its end fails with the library's \<open>StreamError\<close>.
  Nothing else fails: an input of at least 112 bytes whose three text fields are UTF-8
  yields the parsed image, in which an enumerated field whose value is outside its
  enumeration holds that value as an integer. The code wraps neither exception into
  the Decoding error of the protocol.
\<close>

theorem decode_image:
  "parse_struct EEPROM_LAYOUT bs =
    (if length bs < 80 then Inl StreamError
     else case text_at 0x40 bs of
       None \<Rightarrow> Inl StringError
     | Some layout \<Rightarrow>
        if length bs < 96 then Inl StreamError
        else case text_at 0x50 bs of
           None \<Rightarrow> Inl StringError
         | Some mcu \<Rightarrow>
            if length bs < 112 then Inl StreamError
            else case text_at 0x60 bs of
               None \<Rightarrow> Inl StringError
             | Some name \<Rightarrow> Inr (eeprom_of bs layout mcu name))"
proof (cases "length bs < 64")
  case True
  have "parse_fields EEPROM_LAYOUT [] bs =
      parse_fields (take 29 EEPROM_LAYOUT @ drop 29 EEPROM_LAYOUT) [] bs"
    by simp
  also have "\<dots> = Inl StreamError"
    unfolding parse_fields_append EEPROM_head_short [OF True] by simp
  finally show ?thesis
    using True by (simp add: parse_struct_def)
next
  case False
  then have len: "64 \<le> length bs" by simp
  have "parse_fields EEPROM_LAYOUT [] bs =
      parse_fields (take 29 EEPROM_LAYOUT @ drop 29 EEPROM_LAYOUT) [] bs"
    by simp
  also have "\<dots> = parse_fields (drop 29 EEPROM_LAYOUT) (take 19 (eeprom_of bs [] [] [])) (drop 64 bs)"
    unfolding parse_fields_append EEPROM_parse_head [OF len, of "[]" "[]" "[]"] by simp
  finally show ?thesis
    unfolding parse_struct_def EEPROM_texts_any
    by (simp split: option.splits)
qed

text \<open>
  The theorem at five inputs: 111 zero bytes (too short), 112 zero bytes (decoded),
  112 bytes with 0xFF at the start of the text field \<open>layout\<close> (no UTF-8), 100 bytes
  with the same byte (too short, but the text field fails first), and 70 bytes.
\<close>

theorem decode_image_witness:
  "parse_struct EEPROM_LAYOUT (replicate 111 0) = Inl StreamError
   \<and> parse_struct EEPROM_LAYOUT (replicate 112 0) = Inr (eeprom_of (replicate 112 0) [] [] [])
   \<and> parse_struct EEPROM_LAYOUT (replicate 64 0 @ [0xff] @ replicate 47 0) = Inl StringError
   \<and> parse_struct EEPROM_LAYOUT (replicate 64 0 @ [0xff] @ replicate 35 0) = Inl StringError
   \<and> parse_struct EEPROM_LAYOUT (replicate 70 0) = Inl StreamError"
  using decode_image [of "replicate 111 0"] decode_image [of "replicate 112 0"]
    decode_image [of "replicate 64 0 @ [0xff] @ replicate 47 0"]
    decode_image [of "replicate 64 0 @ [0xff] @ replicate 35 0"]
    decode_image [of "replicate 70 0"]
    text_at_FF [of 47 64] text_at_FF [of 35 64]
  by (simp add: text_at_zeros)

text \<open>
  The claim as stated fails: an input of 113 zero bytes is not 112 bytes long and its
  start-up power byte 0 is outside the enumeration (1 to 13), and it decodes; so does
  the input of exactly 112 zero bytes, with the same byte outside the enumeration.
\<close>

theorem decode_image_counterexample:
  "length (replicate 113 (0::byte)) \<noteq> 112 \<and> 0 \<notin> snd ` set STARTUP_POWERS
   \<and> (\<exists>c. parse_struct EEPROM_LAYOUT (replicate 113 0) = Inr c
          \<and> getitem c (str ''startup_power'') = Inr (PInt 0))
   \<and> (\<exists>c. parse_struct EEPROM_LAYOUT (replicate 112 0) = Inr c
          \<and> getitem c (str ''startup_power'') = Inr (PInt 0))"
proof -
  have p: "parse_struct EEPROM_LAYOUT (replicate n 0) = Inr (eeprom_of (replicate n 0) [] [] [])"
    if "112 \<le> n" for n
    using that by (simp add: EEPROM_parse text_at_zeros)
  have g: "getitem (eeprom_of (replicate n 0) [] [] []) (str ''startup_power'') = Inr (PInt 0)"
    if "112 \<le> n" for n
    using that
    by (simp add: eeprom_of_def getitem_def str_def enum_decode_def STARTUP_POWERS_def)
  have "0 \<notin> snd ` set STARTUP_POWERS"
    by (simp add: STARTUP_POWERS_def)
  with p [of 113] g [of 113] p [of 112] g [of 112] show ?thesis
    by simp
qed

subsection \<open>Encoding what was decoded\<close>

lemma split64:
  fixes a z :: nat
  assumes "z < 64"
  shows "(a * 64 + z) div 64 = a" "(a * 64 + z) mod 64 = z"
  using assms by simp_all

lemma utf8_two:
  fixes x y :: nat
  assumes "2 \<le> x" "x < 32" "y < 64"
  shows "utf8_char (x * 64 + y) = Some [0xC0 + x, 0x80 + y]"
proof -
  have "\<not> x * 64 + y < 0x80" "x * 64 + y < 0x800"
    using assms by linarith+
  then show ?thesis
    using assms by (simp add: utf8_char_def)
qed

lemma utf8_three:
  fixes x y z :: nat
  assumes "x < 16" "y < 64" "z < 64" "x = 0 \<longrightarrow> 32 \<le> y" "x = 13 \<longrightarrow> y < 32"
  shows "utf8_char (x * 4096 + y * 64 + z) = Some [0xE0 + x, 0x80 + y, 0x80 + z]"
proof -
  let ?c = "x * 4096 + y * 64 + z"
  have c: "?c = (x * 64 + y) * 64 + z" by simp
  have lo: "\<not> ?c < 0x800"
    using assms by (cases "x = 0") linarith+
  have hi: "?c < 0x10000"
    using assms by linarith
  have sur: "\<not> (0xD800 \<le> ?c \<and> ?c \<le> 0xDFFF)"
    using assms by (cases "x = 13") linarith+
  have d1: "?c div 64 = x * 64 + y" and m1: "?c mod 64 = z"
    unfolding c using assms(3) by (rule split64)+
  have d2: "?c div 4096 = x"
  proof -
    have "?c div 4096 = (?c div 64) div 64"
      by (simp add: div_mult2_eq)
    then show ?thesis by (simp only: d1 split64(1) [OF assms(2)])
  qed
  have m2: "(?c div 64) mod 64 = y"
    by (simp only: d1 split64(2) [OF assms(2)])
  from lo hi sur d2 m2 m1 show ?thesis
    by (simp add: utf8_char_def)
qed

lemma utf8_four:
  fixes w x y z :: nat
  assumes "w < 5" "x < 64" "y < 64" "z < 64" "w = 0 \<longrightarrow> 16 \<le> x" "w = 4 \<longrightarrow> x < 16"
  shows "utf8_char (w * 262144 + x * 4096 + y * 64 + z)
     = Some [0xF0 + w, 0x80 + x, 0x80 + y, 0x80 + z]"
proof -
  let ?c = "w * 262144 + x * 4096 + y * 64 + z"
  have c: "?c = ((w * 64 + x) * 64 + y) * 64 + z" by simp
  have lo: "\<not> ?c < 0x10000"
    using assms by (cases "w = 0") linarith+
  have hi: "?c < 0x110000"
    using assms by (cases "w = 4") linarith+
  have d1: "?c div 64 = (w * 64 + x) * 64 + y" and m1: "?c mod 64 = z"
    unfolding c using assms(4) by (rule split64)+
  have d2: "?c div 4096 = w * 64 + x" and m2: "(?c div 64) mod 64 = y"
  proof -
    have "?c div 4096 = (?c div 64) div 64"
      by (simp add: div_mult2_eq)
    then show "?c div 4096 = w * 64 + x" by (simp only: d1 split64(1) [OF assms(3)])
    show "(?c div 64) mod 64 = y" by (simp only: d1 split64(2) [OF assms(3)])
  qed
  have d3: "?c div 262144 = w" and m3: "(?c div 4096) mod 64 = x"
  proof -
    have "?c div 262144 = (?c div 4096) div 64"
      by (simp add: div_mult2_eq)
    then show "?c div 262144 = w" by (simp only: d2 split64(1) [OF assms(2)])
    show "(?c div 4096) mod 64 = x" by (simp only: d2 split64(2) [OF assms(2)])
  qed
  from lo hi d3 m3 m2 m1 show ?thesis
    by (simp add: utf8_char_def)
qed


lemma utf8_next_encode:
  assumes "utf8_next bs = Some (c, r)"
  shows "\<exists>enc. utf8_char c = Some enc \<and> bs = enc @ r"
proof (cases bs)
  case Nil
  with assms show ?thesis by simp
next
  case (Cons b0 rest)
  consider "b0 < 0x80" | "0xC2 \<le> b0 \<and> b0 \<le> 0xDF" | "0xE0 \<le> b0 \<and> b0 \<le> 0xEF"
    | "0xF0 \<le> b0 \<and> b0 \<le> 0xF4" | "\<not> b0 < 0x80 \<and> \<not> (0xC2 \<le> b0 \<and> b0 \<le> 0xDF)
        \<and> \<not> (0xE0 \<le> b0 \<and> b0 \<le> 0xEF) \<and> \<not> (0xF0 \<le> b0 \<and> b0 \<le> 0xF4)"
    by linarith
  then show ?thesis
  proof cases
    case 1
    with assms Cons show ?thesis by (simp add: utf8_char_def)
  next
    case 2
    with assms Cons obtain b1 where rest: "rest = b1 # r" and b1: "is_cont b1"
      and c: "c = (b0 - 0xC0) * 64 + (b1 - 0x80)"
      by (auto split: list.splits if_splits)
    have "utf8_char c = Some [0xC0 + (b0 - 0xC0), 0x80 + (b1 - 0x80)]"
      unfolding c using 2 b1 by (intro utf8_two) (auto simp: is_cont_def)
    with 2 b1 Cons rest show ?thesis by (simp add: is_cont_def)
  next
    case 3
    with assms Cons obtain b1 b2 where rest: "rest = b1 # b2 # r"
      and b1: "(if b0 = 0xE0 then 0xA0 else 0x80) \<le> b1" "b1 \<le> (if b0 = 0xED then 0x9F else 0xBF)"
      and b2: "is_cont b2"
      and c: "c = (b0 - 0xE0) * 4096 + (b1 - 0x80) * 64 + (b2 - 0x80)"
      by (auto split: list.splits if_splits)
    have b1': "0x80 \<le> b1" "b1 \<le> 0xBF"
      using b1 by (auto split: if_splits)
    have "utf8_char c = Some [0xE0 + (b0 - 0xE0), 0x80 + (b1 - 0x80), 0x80 + (b2 - 0x80)]"
      unfolding c using 3 b1 b1' b2 by (intro utf8_three) (auto simp: is_cont_def split: if_splits)
    with 3 b1' b2 Cons rest show ?thesis by (simp add: is_cont_def)
  next
    case 4
    with assms Cons obtain b1 b2 b3 where rest: "rest = b1 # b2 # b3 # r"
      and b1: "(if b0 = 0xF0 then 0x90 else 0x80) \<le> b1" "b1 \<le> (if b0 = 0xF4 then 0x8F else 0xBF)"
      and b2: "is_cont b2" and b3: "is_cont b3"
      and c: "c = (b0 - 0xF0) * 262144 + (b1 - 0x80) * 4096 + (b2 - 0x80) * 64 + (b3 - 0x80)"
      by (auto split: list.splits if_splits)
    have b1': "0x80 \<le> b1" "b1 \<le> 0xBF"
      using b1 by (auto split: if_splits)
    have "utf8_char c = Some [0xF0 + (b0 - 0xF0), 0x80 + (b1 - 0x80), 0x80 + (b2 - 0x80),
        0x80 + (b3 - 0x80)]"
      unfolding c using 4 b1 b1' b2 b3
      by (intro utf8_four) (auto simp: is_cont_def split: if_splits)
    with 4 b1' b2 b3 Cons rest show ?thesis by (simp add: is_cont_def)
  next
    case 5
    with assms Cons show ?thesis by simp
  qed
qed

lemma utf8_decode_encode: "utf8_decode bs = Some s \<Longrightarrow> utf8_encode s = Some bs"
proof (induction bs arbitrary: s rule: utf8_decode.induct)
  case (1 bs)
  show ?case
  proof (cases "bs = []")
    case True
    with "1.prems" show ?thesis by (simp add: utf8_decode.simps)
  next
    case False
    with "1.prems" obtain c r s' where n: "utf8_next bs = Some (c, r)"
      and d: "utf8_decode r = Some s'" and s: "s = c # s'"
      by (subst (asm) utf8_decode.simps) (auto split: option.splits)
    from utf8_next_encode [OF n] obtain enc where e: "utf8_char c = Some enc" "bs = enc @ r"
      by blast
    from "1.IH" [OF False n refl d] have "utf8_encode s' = Some r" .
    with e s show ?thesis by simp
  qed
qed

lemma rstrip_null_pad:
  "rstrip_null d @ replicate (length d - length (rstrip_null d)) 0 = d"
proof -
  let ?P = "\<lambda>b :: byte. b = 0"
  have z: "takeWhile ?P (rev d) = replicate (length (takeWhile ?P (rev d))) 0"
    by (rule replicate_length_same [symmetric]) (auto dest: set_takeWhileD)
  have "rev d = takeWhile ?P (rev d) @ dropWhile ?P (rev d)"
    by simp
  then have "d = rev (dropWhile ?P (rev d)) @ rev (takeWhile ?P (rev d))"
    by (metis rev_append rev_rev_ident)
  also have "rev (takeWhile ?P (rev d)) = replicate (length (takeWhile ?P (rev d))) 0"
    by (subst z) simp
  also have "length (takeWhile ?P (rev d)) = length d - length (rstrip_null d)"
  proof -
    have "length (takeWhile ?P (rev d)) + length (dropWhile ?P (rev d)) = length d"
      by (metis length_append length_rev takeWhile_dropWhile_id)
    then show ?thesis by (simp add: rstrip_null_def)
  qed
  finally show ?thesis by (simp add: rstrip_null_def)
qed

lemma length_rstrip_null: "length (rstrip_null d) \<le> length d"
  by (simp add: rstrip_null_def length_dropWhile_le [of _ "rev d", simplified])

lemma build_PaddedString_text:
  assumes "text_at k bs = Some s" "k + 16 \<le> length bs"
  shows "build_con (PaddedString 16) (PStr s) = Inr (take 16 (drop k bs))"
proof -
  let ?d = "take 16 (drop k bs)"
  have len: "length ?d = 16" using assms(2) by simp
  from assms(1) have enc: "utf8_encode s = Some (map unat (rstrip_null ?d))"
    unfolding text_at_def by (rule utf8_decode_encode)
  have unat_back: "map of_nat (map unat (rstrip_null ?d)) = rstrip_null ?d"
    by (simp add: map_idI)
  have "length (rstrip_null ?d) \<le> 16"
    using length_rstrip_null [of ?d] len by simp
  moreover have "rstrip_null ?d @ replicate (16 - length (rstrip_null ?d)) 0 = ?d"
    using rstrip_null_pad [of ?d] len by simp
  ultimately show ?thesis
    using enc unat_back by simp
qed

lemma enum_decode_name:
  assumes "enum_decode m v = PStr k" "distinct (map fst m)"
  shows "map_of m k = Some v"
proof -
  from assms(1) have "map_of (map (\<lambda>(k, x). (x, k)) (rev m)) v = Some k"
    by (simp add: enum_decode_def split: option.splits)
  then have "(v, k) \<in> set (map (\<lambda>(k, x). (x, k)) (rev m))"
    by (rule map_of_SomeD)
  then have "(k, v) \<in> set m" by auto
  with assms(2) show ?thesis by simp
qed

lemma enum_decode_cases:
  "(\<exists>k. enum_decode m v = PStr k) \<or> enum_decode m v = PInt v"
  by (simp add: enum_decode_def split: option.splits)

lemma build_Byte_uint: "build_con Byte (PInt (uint (b :: byte))) = Inr [b]"
  using uint_lt2p [of b] by (simp add: pack_B_def)

lemma build_Enum_Byte_decode:
  assumes "distinct (map fst m)"
  shows "build_con (Enum Byte m) (enum_decode m (uint (b :: byte))) = Inr [b]"
proof -
  have r: "uint b < 256" using uint_lt2p [of b] by simp
  from enum_decode_cases [of m "uint b"] show ?thesis
  proof
    assume "\<exists>k. enum_decode m (uint b) = PStr k"
    then obtain k where k: "enum_decode m (uint b) = PStr k" by blast
    from enum_decode_name [OF k assms] r show ?thesis
      by (simp add: k pack_B_def)
  next
    assume "enum_decode m (uint b) = PInt (uint b)"
    with r show ?thesis by (simp add: pack_B_def)
  qed
qed

lemma pack_H_bytes:
  "pack_H (PInt (uint (h :: byte) * 256 + uint (l :: byte))) = Inr [h, l]"
proof -
  have r: "uint h < 256" "uint l < 256" "0 \<le> uint h" "0 \<le> uint l"
    using uint_lt2p [of h] uint_lt2p [of l] by simp_all
  then have "uint h * 256 + uint l < 65536" "0 \<le> uint h * 256 + uint l"
    by linarith+
  moreover have "(uint h * 256 + uint l) div 256 = uint h" "(uint h * 256 + uint l) mod 256 = uint l"
    using r by simp_all
  ultimately show ?thesis
    by (simp add: pack_H_def)
qed

lemma build_Enum_Int16ub_decode:
  assumes "distinct (map fst m)"
  shows "build_con (Enum Int16ub m) (enum_decode m (uint (h :: byte) * 256 + uint (l :: byte)))
    = Inr [h, l]"
proof -
  let ?v = "uint h * 256 + uint l"
  from enum_decode_cases [of m ?v] show ?thesis
  proof
    assume "\<exists>k. enum_decode m ?v = PStr k"
    then obtain k where k: "enum_decode m ?v = PStr k" by blast
    from enum_decode_name [OF k assms] show ?thesis
      by (simp add: k pack_H_bytes)
  next
    assume "enum_decode m ?v = PInt ?v"
    then show ?thesis by (simp add: pack_H_bytes)
  qed
qed

lemma build_Flag_bool: "build_con Flag (PBool (b \<noteq> 0)) = Inr [flag_byte b]"
  by (simp add: flag_byte_def)

lemma enum_names_distinct:
  "distinct (map fst STARTUP_POWERS)" "distinct (map fst MOTOR_DIRECTIONS)"
  "distinct (map fst ESC_MODES)" "distinct (map fst COMMUTATION_TIMINGS)"
  "distinct (map fst BEACON_DELAYS)" "distinct (map fst DEMAG_COMPENSATIONS)"
  "distinct (map fst TEMPERATURE_PROTECTIONS)"
  by (simp_all add: STARTUP_POWERS_def MOTOR_DIRECTIONS_def ESC_MODES_def COMMUTATION_TIMINGS_def
      BEACON_DELAYS_def DEMAG_COMPENSATIONS_def TEMPERATURE_PROTECTIONS_def str_def)

lemma eeprom_lookup:
  "map_of (eeprom_of bs l m n) (str ''main_revision'') = Some (PInt (uint (bs ! 0x00)))"
  "map_of (eeprom_of bs l m n) (str ''sub_revision'') = Some (PInt (uint (bs ! 0x01)))"
  "map_of (eeprom_of bs l m n) (str ''layout_revision'') = Some (PInt (uint (bs ! 0x02)))"
  "map_of (eeprom_of bs l m n) (str ''startup_power'')
     = Some (enum_decode STARTUP_POWERS (uint (bs ! 0x09)))"
  "map_of (eeprom_of bs l m n) (str ''motor_direction'')
     = Some (enum_decode MOTOR_DIRECTIONS (uint (bs ! 0x0B)))"
  "map_of (eeprom_of bs l m n) (str ''mode'')
     = Some (enum_decode ESC_MODES (uint (bs ! 0x0D) * 256 + uint (bs ! 0x0E)))"
  "map_of (eeprom_of bs l m n) (str ''programming_by_tx'') = Some (PBool (bs ! 0x0F \<noteq> 0))"
  "map_of (eeprom_of bs l m n) (str ''commutation_timing'')
     = Some (enum_decode COMMUTATION_TIMINGS (uint (bs ! 0x15)))"
  "map_of (eeprom_of bs l m n) (str ''ppm_min_throttle'') = Some (PInt (uint (bs ! 0x19)))"
  "map_of (eeprom_of bs l m n) (str ''ppm_max_throttle'') = Some (PInt (uint (bs ! 0x1A)))"
  "map_of (eeprom_of bs l m n) (str ''beep_strength'') = Some (PInt (uint (bs ! 0x1B)))"
  "map_of (eeprom_of bs l m n) (str ''beacon_strength'') = Some (PInt (uint (bs ! 0x1C)))"
  "map_of (eeprom_of bs l m n) (str ''beacon_delay'')
     = Some (enum_decode BEACON_DELAYS (uint (bs ! 0x1D)))"
  "map_of (eeprom_of bs l m n) (str ''demag_compensation'')
     = Some (enum_decode DEMAG_COMPENSATIONS (uint (bs ! 0x1F)))"
  "map_of (eeprom_of bs l m n) (str ''ppm_center_throttle'') = Some (PInt (uint (bs ! 0x21)))"
  "map_of (eeprom_of bs l m n) (str ''temperature_protection'')
     = Some (enum_decode TEMPERATURE_PROTECTIONS (uint (bs ! 0x23)))"
  "map_of (eeprom_of bs l m n) (str ''low_rpm_power_protection'') = Some (PBool (bs ! 0x24 \<noteq> 0))"
  "map_of (eeprom_of bs l m n) (str ''brake_on_stop'') = Some (PBool (bs ! 0x27 \<noteq> 0))"
  "map_of (eeprom_of bs l m n) (str ''led_control'') = Some (PBool (bs ! 0x28 \<noteq> 0))"
  "map_of (eeprom_of bs l m n) (str ''layout'') = Some (PStr l)"
  "map_of (eeprom_of bs l m n) (str ''mcu'') = Some (PStr m)"
  "map_of (eeprom_of bs l m n) (str ''name'') = Some (PStr n)"
  by (simp_all add: eeprom_of_def str_def)

lemma build_Padding: "build_con (Padding n pat) obj = Inr (replicate n pat)"
  by simp

lemma EEPROM_build:
  assumes "112 \<le> length bs"
    and "text_at 0x40 bs = Some l" and "text_at 0x50 bs = Some m" and "text_at 0x60 bs = Some n"
  shows "build_struct EEPROM_LAYOUT (eeprom_of bs l m n) = Inr (reencoded bs)"
proof -
  have t: "build_con (PaddedString 16) (PStr l) = Inr (take 16 (drop 0x40 bs))"
    "build_con (PaddedString 16) (PStr m) = Inr (take 16 (drop 0x50 bs))"
    "build_con (PaddedString 16) (PStr n) = Inr (take 16 (drop 0x60 bs))"
    using assms(1)
    by (simp_all add: build_PaddedString_text [OF assms(2)] build_PaddedString_text [OF assms(3)]
        build_PaddedString_text [OF assms(4)] del: build_con.simps)
  show ?thesis
    unfolding EEPROM_LAYOUT_def reencoded_def
    by (simp add: eeprom_lookup t build_Byte_uint build_Enum_Byte_decode
        build_Enum_Int16ub_decode build_Flag_bool build_Padding enum_names_distinct
        del: build_con.simps)
qed

lemma length_reencoded: "112 \<le> length bs \<Longrightarrow> length (reencoded bs) = 112"
  by (simp add: reencoded_def)

text \<open>
  C2 (as amended). For every 112-byte configuration image that decodes successfully,
  encoding the decoded image yields exactly 112 bytes in which every reserved region is
  filled with 0xFF, whatever the original held there, each of the four flag bytes
  (\<open>programming_by_tx\<close>, \<open>low_rpm_power_protection\<close>, \<open>brake_on_stop\<close>,
  \<open>led_control\<close>) is 0x00 if the original byte was 0x00 and 0x01 otherwise, and every
  other field region reproduces the original bytes exactly.
\<close>

theorem encode_decoded_image:
  assumes "length bs = 112" and "parse_struct EEPROM_LAYOUT bs = Inr c"
  shows "build_struct EEPROM_LAYOUT c = Inr (reencoded bs) \<and> length (reencoded bs) = 112"
proof -
  have len: "112 \<le> length bs" using assms(1) by simp
  from assms(2) obtain l m n where t: "text_at 0x40 bs = Some l" "text_at 0x50 bs = Some m"
    "text_at 0x60 bs = Some n" and c: "c = eeprom_of bs l m n"
    unfolding EEPROM_parse [OF len] by (auto split: option.splits)
  from EEPROM_build [OF len t] length_reencoded [OF len] c show ?thesis
    by simp
qed

theorem encode_decoded_image_witness:
  "length (replicate 112 (0::byte)) = 112
   \<and> parse_struct EEPROM_LAYOUT (replicate 112 0) = Inr (eeprom_of (replicate 112 0) [] [] [])
   \<and> build_struct EEPROM_LAYOUT (eeprom_of (replicate 112 0) [] [] [])
       = Inr (reencoded (replicate 112 0))
   \<and> length (reencoded (replicate 112 0)) = 112"
proof -
  have 1: "length (replicate 112 (0::byte)) = 112" by simp
  have 2: "parse_struct EEPROM_LAYOUT (replicate 112 0) = Inr (eeprom_of (replicate 112 0) [] [] [])"
    by (simp add: EEPROM_parse text_at_zeros)
  from 1 2 encode_decoded_image [OF 1 2] show ?thesis
    by blast
qed

text \<open>
  The claim as stated fails: in the image of 112 zero bytes with 0x02 at offset 0x0F, the
  flag \<open>programming_by_tx\<close>, which is no reserved byte, is written back as 0x01.
\<close>

theorem encode_decoded_image_counterexample:
  "\<exists>c out. length ((replicate 112 (0::byte))[0x0F := 2]) = 112
     \<and> parse_struct EEPROM_LAYOUT ((replicate 112 0)[0x0F := 2]) = Inr c
     \<and> build_struct EEPROM_LAYOUT c = Inr out
     \<and> ((replicate 112 (0::byte))[0x0F := 2]) ! 0x0F = 2 \<and> out ! 0x0F = 1"
proof -
  let ?z = "(replicate 112 (0::byte))[0x0F := 2]"
  have len: "112 \<le> length ?z" by simp
  have d: "drop 0x40 ?z = replicate 48 0" "drop 0x50 ?z = replicate 32 0"
    "drop 0x60 ?z = replicate 16 0"
    by simp_all
  have t: "text_at 0x40 ?z = Some []" "text_at 0x50 ?z = Some []" "text_at 0x60 ?z = Some []"
    unfolding text_at_def d by (simp_all add: rstrip_null_zeros utf8_decode_Nil)
  have p: "parse_struct EEPROM_LAYOUT ?z = Inr (eeprom_of ?z [] [] [])"
    unfolding EEPROM_parse [OF len] t by simp
  have b: "build_struct EEPROM_LAYOUT (eeprom_of ?z [] [] []) = Inr (reencoded ?z)"
    using len t by (rule EEPROM_build)
  have "reencoded ?z ! 0x0F = flag_byte (?z ! 0x0F)"
    unfolding reencoded_def by (simp add: nth_append)
  then have o: "reencoded ?z ! 0x0F = 1"
    by (simp add: flag_byte_def)
  from p b o show ?thesis
    by simp
qed

section \<open>Verification: the session and the configuration workflows\<close>

subsection \<open>Sequencing\<close>

lemma bind_Inr: "m s = (Inr a, s') \<Longrightarrow> bind m f s = f a s'"
  by (simp add: bind_def)

lemma bind_Inl: "m s = (Inl e, s') \<Longrightarrow> bind m f s = (Inl e, s')"
  by (simp add: bind_def)

lemma bind_return: "bind (return a) f = f a"
  by (simp add: bind_def return_def)

lemma bind_raise: "bind (raise e) f = raise e"
  by (simp add: bind_def raise_def)

lemma bind_cases:
  "(\<exists>e s'. m s = (Inl e, s') \<and> bind m f s = (Inl e, s'))
   \<or> (\<exists>a s'. m s = (Inr a, s') \<and> bind m f s = f a s')"
  by (cases "m s"; cases "fst (m s)") (auto simp: bind_def)

subsection \<open>One exchange with the device\<close>

lemma after_simps [simp]:
  "verbose (after s r t l) = verbose s" "count (after s r t l) = count s"
  "connected (after s r t l) = connected s" "rx (after s r t l) = r"
  "tx (after s r t l) = tx s @ t" "logs (after s r t l) = logs s @ l"
  by (simp_all add: after_def)

lemma after_after [simp]: "after (after s r t l) r' t' l' = after s r' (t @ t') (l @ l')"
  by (simp add: after_def)

lemma vlog_after [simp]: "vlog (after s r t l) m = vlog s m"
  by (simp add: vlog_def)

lemma vlog_append [simp]: "vlog s a @ vlog s b = vlog s (a @ b)"
  by (simp add: vlog_def)

lemma vlog_append_assoc [simp]: "vlog s a @ vlog s b @ c = vlog s (a @ b) @ c"
  by (simp add: vlog_def)

lemma after_same: "after s (rx s) [] [] = s"
  by (simp add: after_def)

lemma send_command_after:
  assumes "connected s" "build (PStr c) a p = Inr f"
  shows "send_command c a p s = (Inr (), after s (rx s) [f] (vlog s [LogTx f]))"
  using assms
  by (simp add: send_command_def bind_def lift_def serial_write_def log_def return_def
      after_def vlog_def)

lemma read_response_after:
  assumes "connected s" "rx s = chunk # chunks" "int (length chunk) \<le> n" "parse chunk = Inr fr"
  shows "read_response n s = (Inr fr, after s chunks [] (vlog s [LogRx chunk]))"
  using assms
  by (simp add: read_response_def bind_def lift_def serial_read_def log_def return_def
      after_def vlog_def raise_def)

lemma exchange:
  assumes "connected s" "build (PStr c) a p = Inr f" "rx s = chunk # chunks"
    "int (length chunk) \<le> n" "parse chunk = Inr fr"
  shows "bind (send_command c a p) (\<lambda>_. read_response n) s
    = (Inr fr, after s chunks [f] (vlog s [LogTx f, LogRx chunk]))"
proof -
  let ?s1 = "after s (rx s) [f] (vlog s [LogTx f])"
  have 1: "send_command c a p s = (Inr (), ?s1)"
    using assms(1,2) by (rule send_command_after)
  have 2: "read_response n ?s1 = (Inr fr, after ?s1 chunks [] (vlog ?s1 [LogRx chunk]))"
    by (rule read_response_after) (simp_all add: assms)
  show ?thesis
    by (simp add: bind_def 1 2)
qed

subsection \<open>The frames of the simulated device\<close>

lemma length_response: "length (response opc a p ack) = 8 + length p"
  by (simp add: response_def response_body_def)

lemma response_nth:
  "response opc a p ack ! 0 = 0x2e"
  "response opc a p ack ! 1 = word_of_int opc"
  "response opc a p ack ! 4 = word_of_int (int (length p))"
  by (simp_all add: response_def response_body_def)

lemma response_payload: "take (length p) (drop 5 (response opc a p ack)) = p"
  by (simp add: response_def response_body_def)

lemma response_crc:
  "response opc a p ack ! (6 + length p)
     = word_of_int (uint (CRC16_XMODEM (response_body opc a p ack)) div 256)"
  "response opc a p ack ! (7 + length p)
     = word_of_int (uint (CRC16_XMODEM (response_body opc a p ack)) mod 256)"
proof -
  have l: "length (response_body opc a p ack) = 6 + length p"
    by (simp add: response_body_def)
  show "response opc a p ack ! (6 + length p)
     = word_of_int (uint (CRC16_XMODEM (response_body opc a p ack)) div 256)"
    unfolding response_def by (simp add: nth_append l)
  have "7 + length p = Suc (length (response_body opc a p ack))"
    using l by simp
  then show "response opc a p ack ! (7 + length p)
     = word_of_int (uint (CRC16_XMODEM (response_body opc a p ack)) mod 256)"
    unfolding response_def by (simp only: nth_append) simp
qed

lemma parse_response:
  assumes "length p \<le> 255"
  shows "parse (response opc a p ack) = Inr (response_frame_of (response opc a p ack))"
proof -
  let ?bs = "response opc a p ack"
  have n: "unat (?bs ! 4) = length p"
    unfolding response_nth using assms by (rule unat_length_byte)
  have crc: "uint (?bs ! (6 + length p)) * 256 + uint (?bs ! (7 + length p))
      = uint (CRC16_XMODEM (drop_last2 ?bs))"
    unfolding response_crc
    using uint_crc_range [of "CRC16_XMODEM (response_body opc a p ack)"]
    by (simp add: uint_hi_lo response_def drop_last2_append2)
  have ne: "?bs \<noteq> []"
    by (simp add: response_def response_body_def)
  show ?thesis
    unfolding parse_eq [of ?bs] n
    using ne crc by (simp add: response_nth length_response)
qed

lemma response_frame_payload:
  assumes "length p \<le> 255"
  shows "getattr (response_frame_of (response opc a p ack)) (str ''payload'')
    = Inr (PList (map (\<lambda>b. PInt (uint b)) p))"
proof -
  have n: "unat (response opc a p ack ! 4) = length p"
    unfolding response_nth using assms by (rule unat_length_byte)
  show ?thesis
    unfolding getattr_response_frame_of n response_payload ..
qed

lemma response_frame_command:
  assumes "0 \<le> opc" "opc < 256"
  shows "getattr (response_frame_of (response opc a p ack)) (str ''command'')
    = Inr (enum_decode COMMANDS opc)"
  unfolding getattr_response_frame_of response_nth
  using assms by (simp add: uint_byte)

subsection \<open>The operations of the session against the simulated device\<close>

lemma build_request:
  assumes "map_of COMMANDS c = Some opc" "0 \<le> a" "a < 65536" "length p < 256"
    "\<forall>x\<in>set p. 0 \<le> x \<and> x < 256"
  shows "build (PStr c) a p = Inr (request opc a p)"
  using assms by (simp add: build_eq request_def)

lemma COMMANDS_lookup:
  "map_of COMMANDS (str ''device_init_flash'') = Some 0x37"
  "map_of COMMANDS (str ''device_read'') = Some 0x3a"
  "map_of COMMANDS (str ''device_page_erase'') = Some 0x39"
  "map_of COMMANDS (str ''device_write'') = Some 0x3b"
  "map_of COMMANDS (str ''device_reset'') = Some 0x35"
  by (simp_all add: COMMANDS_def str_def)

lemma exchange_then:
  assumes "connected s" "build (PStr c) a p = Inr f" "rx s = chunk # chunks"
    "int (length chunk) \<le> n" "parse chunk = Inr fr"
  shows "bind (send_command c a p) (\<lambda>_. bind (read_response n) k) s
    = k fr (after s chunks [f] (vlog s [LogTx f, LogRx chunk]))"
proof -
  have 1: "send_command c a p s = (Inr (), after s (rx s) [f] (vlog s [LogTx f]))"
    using assms(1,2) by (rule send_command_after)
  have 2: "read_response n (after s (rx s) [f] (vlog s [LogTx f]))
    = (Inr fr, after (after s (rx s) [f] (vlog s [LogTx f])) chunks [] (vlog s [LogRx chunk]))"
    using read_response_after [of "after s (rx s) [f] (vlog s [LogTx f])" chunk chunks n fr] assms
    by simp
  show ?thesis
    by (simp add: bind_def 1 2)
qed


lemma parse_payload_init_reply:
  "parse_payload (response_frame_of (response 0x37 a [0xF3, 0x30, 0xAA, 0x01] ack))
    = Inr (Parsed [(str ''HiSign'', PInt 0xF3), (str ''LoSign'', PInt 0x30),
                   (str ''BootMsg'', PInt 0xAA), (str ''mode'', PStr (str ''SiLabsBLB''))])"
proof -
  let ?fr = "response_frame_of (response 0x37 a [0xF3, 0x30, 0xAA, 0x01] ack)"
  have p: "getattr ?fr (str ''payload'')
      = Inr (PList (map (\<lambda>b. PInt (uint b)) [0xF3, 0x30, 0xAA, 0x01 :: byte]))"
    by (rule response_frame_payload) simp
  have c: "getattr ?fr (str ''command'') = Inr (PStr (str ''device_init_flash''))"
    using response_frame_command [of "0x37" a "[0xF3, 0x30, 0xAA, 0x01]" ack]
    by (simp add: enum_decode_COMMANDS [OF COMMANDS_lookup(1)])
  have m: "enum_decode MODES 1 = PStr (str ''SiLabsBLB'')"
    by (simp add: enum_decode_def MODES_def)
  show ?thesis
    unfolding parse_payload_eq [OF p getattr_response_frame_of(1) c]
    by (simp add: RESPONSE_PAYLOAD_def parse_shape_init_flash m)
qed

lemma init_flash_after:
  assumes "connected s" "0 \<le> esc" "esc < 256"
    and "rx s = response 0x37 a [0xF3, 0x30, 0xAA, 0x01] ack # chunks"
  shows "init_flash esc s
    = (Inr (str ''silabs''),
       after s chunks [request 0x37 0 [esc]]
         (vlog s [LogTx (request 0x37 0 [esc]),
                  LogRx (response 0x37 a [0xF3, 0x30, 0xAA, 0x01] ack)]))"
proof -
  have b: "build (PStr (str ''device_init_flash'')) 0 [esc] = Inr (request 0x37 0 [esc])"
    using assms(2,3) by (simp add: build_request [OF COMMANDS_lookup(1)])
  have l: "int (length (response 0x37 a [0xF3, 0x30, 0xAA, 0x01] ack)) \<le> 64"
    by (simp add: length_response)
  have p: "parse (response 0x37 a [0xF3, 0x30, 0xAA, 0x01] ack)
      = Inr (response_frame_of (response 0x37 a [0xF3, 0x30, 0xAA, 0x01] ack))"
    by (rule parse_response) simp
  show ?thesis
    unfolding init_flash_def exchange_then [OF assms(1) b assms(4) l p]
    by (simp add: bind_def lift_def lift_exn_def return_def parse_payload_init_reply
        payload_mode_def getattr_def str_def)
qed





subsection \<open>Probing an instance\<close>

text \<open>
  C10. \<open>probe_esc\<close> never returns normally, for any instance index and any state of the
  session: when the index is in range and \<open>init_flash\<close> succeeds, whatever device it
  reports, the call of \<open>reset_esc\<close> with no argument raises \<open>TypeError\<close>.
\<close>

theorem probe_esc_always_raises:
  "(\<exists>e s'. probe_esc esc s = (Inl e, s'))
   \<and> (0 \<le> esc \<and> esc < count s
        \<and> init_flash esc (s\<lparr>logs := logs s @ [LogProbing (esc + 1)]\<rparr>) = (Inr interface_type, s')
      \<longrightarrow> probe_esc esc s = (Inl (Raised TypeError), s'))"
proof (intro conjI impI)
  show "\<exists>e s'. probe_esc esc s = (Inl e, s')"
  proof (cases "esc \<ge> 0 \<and> esc < count s")
    case False
    then show ?thesis
      by (auto simp: probe_esc_def py_assert_def bind_def raise_def)
  next
    case True
    obtain r s1 where i: "init_flash esc (s\<lparr>logs := logs s @ [LogProbing (esc + 1)]\<rparr>) = (r, s1)"
      by (cases "init_flash esc (s\<lparr>logs := logs s @ [LogProbing (esc + 1)]\<rparr>)")
    show ?thesis
      using True i
      by (cases r)
        (simp_all add: probe_esc_def py_assert_def bind_def raise_def return_def log_def
          call_reset_esc_def)
  qed
next
  assume "0 \<le> esc \<and> esc < count s
        \<and> init_flash esc (s\<lparr>logs := logs s @ [LogProbing (esc + 1)]\<rparr>) = (Inr interface_type, s')"
  then show "probe_esc esc s = (Inl (Raised TypeError), s')"
    by (simp add: probe_esc_def py_assert_def bind_def raise_def return_def log_def
        call_reset_esc_def)
qed

text \<open>
  The theorem at the session of a rig of four instances whose first one answers
  \<open>device_init_flash\<close> with the frame 2E37000004F330AA0100F7F0 (a SiLabs device):
  \<open>init_flash\<close> returns \<open>silabs\<close> and \<open>probe_esc\<close> raises \<open>TypeError\<close>,
  the request of \<open>init_flash\<close> written and no reset request sent.
\<close>

theorem probe_esc_always_raises_witness:
  "(\<exists>e s'. probe_esc 0
       \<lparr>verbose = False, count = 4, connected = True,
        rx = [[0x2E, 0x37, 0x00, 0x00, 0x04, 0xF3, 0x30, 0xAA, 0x01, 0x00, 0xF7, 0xF0]],
        tx = [], logs = []\<rparr> = (Inl e, s'))
   \<and> init_flash 0
       \<lparr>verbose = False, count = 4, connected = True,
        rx = [[0x2E, 0x37, 0x00, 0x00, 0x04, 0xF3, 0x30, 0xAA, 0x01, 0x00, 0xF7, 0xF0]],
        tx = [], logs = [LogProbing 1]\<rparr>
     = (Inr (str ''silabs''),
        \<lparr>verbose = False, count = 4, connected = True, rx = [],
         tx = [[0x2F, 0x37, 0x00, 0x00, 0x01, 0x00, 0xA8, 0x00]], logs = [LogProbing 1]\<rparr>)
   \<and> probe_esc 0
       \<lparr>verbose = False, count = 4, connected = True,
        rx = [[0x2E, 0x37, 0x00, 0x00, 0x04, 0xF3, 0x30, 0xAA, 0x01, 0x00, 0xF7, 0xF0]],
        tx = [], logs = []\<rparr>
     = (Inl (Raised TypeError),
        \<lparr>verbose = False, count = 4, connected = True, rx = [],
         tx = [[0x2F, 0x37, 0x00, 0x00, 0x01, 0x00, 0xA8, 0x00]], logs = [LogProbing 1]\<rparr>)"
proof -
  let ?reply = "[0x2E, 0x37, 0x00, 0x00, 0x04, 0xF3, 0x30, 0xAA, 0x01, 0x00, 0xF7, 0xF0] :: byte list"
  let ?s = "\<lparr>verbose = False, count = 4, connected = True, rx = [?reply], tx = [], logs = []\<rparr>"
  let ?s1 = "\<lparr>verbose = False, count = 4, connected = True, rx = [?reply], tx = [],
    logs = [LogProbing 1]\<rparr>"
  let ?s2 = "\<lparr>verbose = False, count = 4, connected = True, rx = [],
    tx = [[0x2F, 0x37, 0x00, 0x00, 0x01, 0x00, 0xA8, 0x00 :: byte]], logs = [LogProbing 1]\<rparr>"
  have r: "response 0x37 0 [0xF3, 0x30, 0xAA, 0x01] 0 = ?reply"
    by (simp add: response_def response_body_def crc_eval)
  have q: "request 0x37 0 [0] = [0x2F, 0x37, 0x00, 0x00, 0x01, 0x00, 0xA8, 0x00]"
    by (simp add: request_def request_body_def crc_eval)
  have i: "init_flash 0 ?s1 = (Inr (str ''silabs''), ?s2)"
    using init_flash_after [of ?s1 0 0 0 "[]"]
    by (simp add: r q after_def vlog_def)
  show ?thesis
    using probe_esc_always_raises [of 0 ?s "str ''silabs''" ?s2] i
    by simp
qed

subsection \<open>Reading the configuration of one instance\<close>







lemma traffic_Cons [simp]:
  "traffic (q # qs) (r # rs) = LogTx q # LogRx r # traffic qs rs"
  "traffic [] rs = []" "traffic qs [] = []"
  by (simp_all add: traffic_def)


subsection \<open>Reading the configuration of every instance\<close>

lemma mismatches_append [simp]: "mismatches (a @ b) = mismatches a @ mismatches b"
  by (simp add: mismatches_def)

lemma mismatches_traffic [simp]: "mismatches (traffic qs rs) = []"
  by (induction qs rs rule: list_induct2') (simp_all add: mismatches_def)

lemma mismatches_vlog_traffic [simp]: "mismatches (vlog s (traffic qs rs)) = []"
  by (simp add: vlog_def) (simp add: mismatches_def)

lemma mismatches_warning [simp]: "mismatches [LogCommonMismatch i] = [i]" "mismatches [] = []"
  by (simp_all add: mismatches_def)









subsection \<open>Writing the configuration of one instance\<close>

lemma build_array_length:
  "build_array b xs = Inr d \<Longrightarrow> (\<And>x e. b x = Inr e \<Longrightarrow> length e = k) \<Longrightarrow>
   length d = k * length xs"
  by (induction xs arbitrary: d) (auto split: sum.splits)









lemma flag_byte_zero [simp]: "(flag_byte b = 0) = (b = 0)"
  by (simp add: flag_byte_def)







lemma invalid_parameters_Nil [simp]: "invalid_parameters [] = []"
  by (simp add: invalid_parameters_def)

lemma invalid_parameters_append [simp]:
  "invalid_parameters (a @ b) = invalid_parameters a @ invalid_parameters b"
  by (simp add: invalid_parameters_def)

lemma invalid_parameters_traffic [simp]: "invalid_parameters (vlog s (traffic qs rs)) = []"
proof -
  have "invalid_parameters (traffic qs rs) = []"
    by (induction qs rs rule: list_induct2') (simp_all add: invalid_parameters_def)
  then show ?thesis
    by (simp add: vlog_def)
qed

lemma invalid_parameters_warnings [simp]:
  "invalid_parameters (map (\<lambda>p. LogInvalidParameter (fst p)) ps) = map fst ps"
  by (induction ps) (simp_all add: invalid_parameters_def)








end
